theory Spec2Isabelle
  imports
    Complex_Main
    "HOL-Library.Char_ord"
    "HOL-Library.List_Lexorder"
    "HOL-Library.Product_Lexorder"
    "HOL-Library.AList"
begin

section \<open>Python values and exceptions\<close>

text \<open>
  The values that \<^verbatim>\<open>json.load\<close> produces and \<^verbatim>\<open>json.dump\<close> accepts. A dict is an
  association list in insertion order with string keys; a float is a real number (the
  program stores and returns floats, it does no arithmetic on them). Characters are
  bytes; Python compares strings by code point, which is the order of
  \<^theory_text>\<open>Char_ord\<close> and \<^theory_text>\<open>List_Lexorder\<close>.
\<close>

datatype pyval =
    PNone
  | PBool bool
  | PInt int
  | PFloat real
  | PStr string
  | PList "pyval list"
  | PDict "(string \<times> pyval) list"

datatype py_error =
    KeyError
  | TypeError
  | ValueError
  | IndexError
  | AttributeError
  | OverflowError
  | FileExistsError
  | NotADirectoryError
  | ShutilError

section \<open>datetime\<close>

text \<open>
  A naive \<^verbatim>\<open>datetime\<close> is its seven fields. Python compares two of them as the tuples
  of their fields, a \<^verbatim>\<open>date\<close> as the triple (year, month, day).
\<close>

record datetime =
  year :: nat
  month :: nat
  day :: nat
  hour :: nat
  minute :: nat
  second :: nat
  microsecond :: nat

type_synonym date = "nat \<times> nat \<times> nat"

definition date_of :: "datetime \<Rightarrow> date" where
  "date_of dt = (year dt, month dt, day dt)"

definition dt_key :: "datetime \<Rightarrow> nat \<times> nat \<times> nat \<times> nat \<times> nat \<times> nat \<times> nat" where
  "dt_key dt = (year dt, month dt, day dt, hour dt, minute dt, second dt, microsecond dt)"

definition dt_le :: "datetime \<Rightarrow> datetime \<Rightarrow> bool" where
  "dt_le a b = (dt_key a \<le> dt_key b)"

definition is_leap :: "nat \<Rightarrow> bool" where
  "is_leap y = (y mod 4 = 0 \<and> (y mod 100 \<noteq> 0 \<or> y mod 400 = 0))"

definition days_in_month :: "nat \<Rightarrow> nat \<Rightarrow> nat" where
  "days_in_month y m =
     (if m = 2 then (if is_leap y then 29 else 28)
      else if m = 4 \<or> m = 6 \<or> m = 9 \<or> m = 11 then 30 else 31)"

definition valid_date :: "date \<Rightarrow> bool" where
  "valid_date d = (case d of (y, m, dd) \<Rightarrow>
     1 \<le> y \<and> y \<le> 9999 \<and> 1 \<le> m \<and> m \<le> 12 \<and> 1 \<le> dd \<and> dd \<le> days_in_month y m)"

definition valid_datetime :: "datetime \<Rightarrow> bool" where
  "valid_datetime dt =
     (valid_date (date_of dt) \<and> hour dt < 24 \<and> minute dt < 60 \<and> second dt < 60
      \<and> microsecond dt < 1000000)"

text \<open>The constructor \<^verbatim>\<open>datetime(y, m, d, H, M, S)\<close>: ValueError on a field out of range.\<close>

definition mk_datetime :: "nat \<times> nat \<times> nat \<times> nat \<times> nat \<times> nat \<Rightarrow> py_error + datetime" where
  "mk_datetime f = (case f of (y, m, d, H, M, S) \<Rightarrow>
     (let dt = \<lparr>year = y, month = m, day = d, hour = H, minute = M, second = S,
                 microsecond = 0\<rparr>
      in if valid_datetime dt then Inr dt else Inl ValueError))"

text \<open>
  The proleptic Gregorian ordinal of a date (\<^verbatim>\<open>date.toordinal\<close>): day 1 is 0001-01-01.
\<close>

definition days_before_year :: "nat \<Rightarrow> int" where
  "days_before_year y =
     (let p = int y - 1 in p * 365 + p div 4 - p div 100 + p div 400)"

definition days_before_month :: "nat \<Rightarrow> nat \<Rightarrow> int" where
  "days_before_month y m =
     int ([0, 31, 59, 90, 120, 151, 181, 212, 243, 273, 304, 334] ! (m - 1))
     + (if 2 < m \<and> is_leap y then 1 else 0)"

definition ymd2ord :: "date \<Rightarrow> int" where
  "ymd2ord d = (case d of (y, m, dd) \<Rightarrow> days_before_year y + days_before_month y m + int dd)"

text \<open>
  \<^verbatim>\<open>a - b\<close> on two datetimes is a timedelta: days, seconds and microseconds, here
  as the one integer of microseconds that \<^verbatim>\<open>total_seconds()\<close> computes first.
\<close>

definition seconds_of_day :: "datetime \<Rightarrow> nat" where
  "seconds_of_day dt = second dt + minute dt * 60 + hour dt * 3600"

definition total_microseconds :: "datetime \<Rightarrow> datetime \<Rightarrow> int" where
  "total_microseconds a b =
     ((ymd2ord (date_of a) - ymd2ord (date_of b)) * 86400
        + (int (seconds_of_day a) - int (seconds_of_day b))) * 1000000
     + (int (microsecond a) - int (microsecond b))"

text \<open>
  \<^verbatim>\<open>total_seconds()\<close> divides that integer by \<^verbatim>\<open>10**6\<close>. The true division of two
  Python ints gives the double nearest to the exact quotient, ties going to the even
  significand. For a quotient \<open>n / d\<close> that is not negative: \<open>d\<close> or \<open>n\<close> is doubled
  until \<open>2^52 \<le> n / d < 2^53\<close>, which gives the exponent, and \<open>n / d\<close> is rounded to
  an integer, the significand of 53 bits. (Quotients outside the range of the normal
  doubles do not arise from a timedelta.)
\<close>

function scale_down :: "nat \<Rightarrow> nat \<Rightarrow> int \<Rightarrow> nat \<times> nat \<times> int" where
  "scale_down n d e =
     (if 0 < d \<and> 2 ^ 53 * d \<le> n then scale_down n (2 * d) (e + 1) else (n, d, e))"
  by pat_completeness auto
termination
  by (relation "measure (\<lambda>(n, d, e). n + 1 - 2 ^ 53 * d)") auto

function scale_up :: "nat \<Rightarrow> nat \<Rightarrow> int \<Rightarrow> nat \<times> nat \<times> int" where
  "scale_up n d e =
     (if 0 < n \<and> n < 2 ^ 52 * d then scale_up (2 * n) d (e - 1) else (n, d, e))"
  by pat_completeness auto
termination
  by (relation "measure (\<lambda>(n, d, e). 2 ^ 52 * d - n)") auto

declare scale_down.simps [simp del]

declare scale_up.simps [simp del]

definition round_half_even :: "nat \<Rightarrow> nat \<Rightarrow> nat" where
  "round_half_even n d =
     (let q = n div d; r = n mod d
      in if 2 * r < d then q else if d < 2 * r then q + 1
         else if even q then q else q + 1)"

definition nearest_double :: "nat \<Rightarrow> nat \<Rightarrow> real" where
  "nearest_double n d =
     (case scale_down n d 0 of (n1, d1, e1) \<Rightarrow>
        (case scale_up n1 d1 e1 of (n2, d2, e2) \<Rightarrow>
           (let m = round_half_even n2 d2
            in if 0 \<le> e2 then real m * 2 ^ nat e2 else real m / 2 ^ nat (- e2))))"

definition true_div :: "int \<Rightarrow> nat \<Rightarrow> real" where
  "true_div a d =
     (if 0 \<le> a then nearest_double (nat a) d else - nearest_double (nat (- a)) d)"

definition total_seconds :: "datetime \<Rightarrow> datetime \<Rightarrow> real" where
  "total_seconds a b = true_div (total_microseconds a b) 1000000"

text \<open>
  \<^verbatim>\<open>dt - timedelta(days=ds, seconds=ss)\<close> for a timedelta that is not negative and has
  no microseconds (\<open>ss < 86400\<close>, as a timedelta is normalised): the time of day
  borrows one day when it has to, and the date goes back day by day. A result before
  0001-01-01 is an OverflowError.
\<close>

definition prev_day :: "date \<Rightarrow> date" where
  "prev_day d = (case d of (y, m, dd) \<Rightarrow>
     if 1 < dd then (y, m, dd - 1)
     else if 1 < m then (y, m - 1, days_in_month y (m - 1))
     else (y - 1, 12, 31))"

fun days_back :: "nat \<Rightarrow> date \<Rightarrow> date option" where
  "days_back 0 d = Some d"
| "days_back (Suc n) d = (if d = (1, 1, 1) then None else days_back n (prev_day d))"

definition dt_minus :: "datetime \<Rightarrow> nat \<Rightarrow> nat \<Rightarrow> py_error + datetime" where
  "dt_minus dt ds ss =
     (let tod = seconds_of_day dt;
          back = (if ss \<le> tod then ds else ds + 1);
          tod' = (if ss \<le> tod then tod - ss else tod + 86400 - ss)
      in case days_back back (date_of dt) of
           None \<Rightarrow> Inl OverflowError
         | Some (y, m, d) \<Rightarrow>
             Inr \<lparr>year = y, month = m, day = d, hour = tod' div 3600,
                  minute = tod' mod 3600 div 60, second = tod' mod 60,
                  microsecond = microsecond dt\<rparr>)"

subsection \<open>Formatting\<close>

definition digit_char :: "nat \<Rightarrow> char" where
  "digit_char n = char_of (48 + n mod 10)"

definition pad2 :: "nat \<Rightarrow> string" where
  "pad2 n = [digit_char (n div 10), digit_char n]"

definition pad4 :: "nat \<Rightarrow> string" where
  "pad4 n = pad2 (n div 100) @ pad2 (n mod 100)"

definition pad6 :: "nat \<Rightarrow> string" where
  "pad6 n = pad2 (n div 10000) @ pad4 (n mod 10000)"

text \<open>
  \<^verbatim>\<open>dt.isoformat()\<close>: \<^verbatim>\<open>YYYY-MM-DDTHH:MM:SS\<close>, and \<^verbatim>\<open>.ffffff\<close> after it when the
  microsecond is not 0.
\<close>

definition isoformat :: "datetime \<Rightarrow> string" where
  "isoformat dt =
     pad4 (year dt) @ ''-'' @ pad2 (month dt) @ ''-'' @ pad2 (day dt) @ ''T''
     @ pad2 (hour dt) @ '':'' @ pad2 (minute dt) @ '':'' @ pad2 (second dt)
     @ (if microsecond dt = 0 then [] else ''.'' @ pad6 (microsecond dt))"

text \<open>
  \<^verbatim>\<open>dt.strftime('%Y%m%d_%H%M%S')\<close>, with the year on four digits (what the C library
  prints for the years from 1000 on).
\<close>

definition strftime_stamp :: "datetime \<Rightarrow> string" where
  "strftime_stamp dt =
     pad4 (year dt) @ pad2 (month dt) @ pad2 (day dt) @ ''_''
     @ pad2 (hour dt) @ pad2 (minute dt) @ pad2 (second dt)"

subsection \<open>Parsing\<close>

text \<open>
  \<^verbatim>\<open>datetime.strptime\<close> compiles the format into a regular expression, one group of
  ordered alternatives per directive, and matches it at the start of the string,
  ignoring case; the first match in backtracking order is taken, and text left after it
  is a ValueError. A matcher below returns all its matches in that order, each with the
  rest of the string.
  \<^verbatim>\<open>
  'Y': \d\d\d\d                      'H': 2[0-3]|[0-1]\d|\d
  'm': 1[0-2]|0[1-9]|[1-9]           'M': [0-5]\d|\d
  'd': 3[0-1]|[1-2]\d|0[1-9]|[1-9]| [1-9]    'S': 6[0-1]|[0-5]\d|\d
  \<close>
\<close>

definition digit_val :: "char \<Rightarrow> nat option" where
  "digit_val c =
     (let n = of_char c :: nat in if 48 \<le> n \<and> n \<le> 57 then Some (n - 48) else None)"

fun two_digits :: "(nat \<Rightarrow> nat \<Rightarrow> bool) \<Rightarrow> string \<Rightarrow> (nat \<times> string) list" where
  "two_digits P (a # b # r) =
     (case digit_val a of
        None \<Rightarrow> []
      | Some x \<Rightarrow>
          (case digit_val b of
             None \<Rightarrow> []
           | Some y \<Rightarrow> if P x y then [(10 * x + y, r)] else []))"
| "two_digits P [a] = []"
| "two_digits P [] = []"

fun one_digit :: "(nat \<Rightarrow> bool) \<Rightarrow> string \<Rightarrow> (nat \<times> string) list" where
  "one_digit P (a # r) =
     (case digit_val a of None \<Rightarrow> [] | Some x \<Rightarrow> if P x then [(x, r)] else [])"
| "one_digit P [] = []"

fun lit :: "string \<Rightarrow> string \<Rightarrow> string list" where
  "lit cs (a # r) = (if a \<in> set cs then [r] else [])"
| "lit cs [] = []"

definition re_Y :: "string \<Rightarrow> (nat \<times> string) list" where
  "re_Y s = [(100 * hi + lo, r). (hi, r1) \<leftarrow> two_digits (\<lambda>x y. True) s,
                                (lo, r) \<leftarrow> two_digits (\<lambda>x y. True) r1]"

definition re_m :: "string \<Rightarrow> (nat \<times> string) list" where
  "re_m s = two_digits (\<lambda>x y. x = 1 \<and> y \<le> 2) s @ two_digits (\<lambda>x y. x = 0 \<and> 1 \<le> y) s
            @ one_digit (\<lambda>x. 1 \<le> x) s"

definition re_d :: "string \<Rightarrow> (nat \<times> string) list" where
  "re_d s = two_digits (\<lambda>x y. x = 3 \<and> y \<le> 1) s @ two_digits (\<lambda>x y. 1 \<le> x \<and> x \<le> 2) s
            @ two_digits (\<lambda>x y. x = 0 \<and> 1 \<le> y) s @ one_digit (\<lambda>x. 1 \<le> x) s
            @ [(n, r). r1 \<leftarrow> lit '' '' s, (n, r) \<leftarrow> one_digit (\<lambda>x. 1 \<le> x) r1]"

definition re_H :: "string \<Rightarrow> (nat \<times> string) list" where
  "re_H s = two_digits (\<lambda>x y. x = 2 \<and> y \<le> 3) s @ two_digits (\<lambda>x y. x \<le> 1) s
            @ one_digit (\<lambda>x. True) s"

definition re_M :: "string \<Rightarrow> (nat \<times> string) list" where
  "re_M s = two_digits (\<lambda>x y. x \<le> 5) s @ one_digit (\<lambda>x. True) s"

definition re_S :: "string \<Rightarrow> (nat \<times> string) list" where
  "re_S s = two_digits (\<lambda>x y. x = 6 \<and> y \<le> 1) s @ two_digits (\<lambda>x y. x \<le> 5) s
            @ one_digit (\<lambda>x. True) s"

text \<open>The first match must consume the whole string; its fields build the datetime.\<close>

definition first_full_match ::
  "((nat \<times> nat \<times> nat \<times> nat \<times> nat \<times> nat) \<times> string) list \<Rightarrow> py_error + datetime" where
  "first_full_match ms =
     (case ms of
        [] \<Rightarrow> Inl ValueError
      | (f, r) # _ \<Rightarrow> if r = [] then mk_datetime f else Inl ValueError)"

text \<open>\<^verbatim>\<open>datetime.strptime(s, "%Y-%m-%dT%H:%M:%SZ")\<close>\<close>

definition strptime_ts :: "string \<Rightarrow> py_error + datetime" where
  "strptime_ts s = first_full_match
     [((Y, m, d, H, M, S), r12).
        (Y, r1) \<leftarrow> re_Y s, r2 \<leftarrow> lit ''-'' r1,
        (m, r3) \<leftarrow> re_m r2, r4 \<leftarrow> lit ''-'' r3,
        (d, r5) \<leftarrow> re_d r4, r6 \<leftarrow> lit ''Tt'' r5,
        (H, r7) \<leftarrow> re_H r6, r8 \<leftarrow> lit '':'' r7,
        (M, r9) \<leftarrow> re_M r8, r10 \<leftarrow> lit '':'' r9,
        (S, r11) \<leftarrow> re_S r10, r12 \<leftarrow> lit ''Zz'' r11]"

text \<open>\<^verbatim>\<open>datetime.strptime(s, "%Y%m%d")\<close>\<close>

definition strptime_ymd :: "string \<Rightarrow> py_error + datetime" where
  "strptime_ymd s = first_full_match
     [((Y, m, d, 0, 0, 0), r3).
        (Y, r1) \<leftarrow> re_Y s, (m, r2) \<leftarrow> re_m r1, (d, r3) \<leftarrow> re_d r2]"

text \<open>\<^verbatim>\<open>datetime.strptime(s, "%Y-%m-%d")\<close>\<close>

definition strptime_date :: "string \<Rightarrow> py_error + datetime" where
  "strptime_date s = first_full_match
     [((Y, m, d, 0, 0, 0), r5).
        (Y, r1) \<leftarrow> re_Y s, r2 \<leftarrow> lit ''-'' r1,
        (m, r3) \<leftarrow> re_m r2, r4 \<leftarrow> lit ''-'' r3,
        (d, r5) \<leftarrow> re_d r4]"

section \<open>The file system\<close>

text \<open>
  A file either holds JSON text, kept as the value that \<^verbatim>\<open>json.load\<close> reads from it
  (and \<^verbatim>\<open>json.dump\<close> wrote), or it is \<open>Corrupt\<close>: empty, partially written, not JSON,
  or not readable, so that opening and loading it raises. The files are an association
  list from path to file, the directories a list of paths; paths are relative to the
  working directory, which the collector and the web server share.
\<close>

datatype file_data = Json pyval | Corrupt

record fs =
  dirs :: "string list"
  files :: "(string \<times> file_data) list"

definition path_exists :: "fs \<Rightarrow> string \<Rightarrow> bool" where
  "path_exists s p = (p \<in> set (dirs s) \<or> p \<in> set (map fst (files s)))"

text \<open>\<^verbatim>\<open>os.path.join\<close> of two components (posixpath).\<close>

definition path_join :: "string \<Rightarrow> string \<Rightarrow> string" where
  "path_join a b =
     (if take 1 b = ''/'' then b
      else if a = [] \<or> last a = CHR ''/'' then a @ b
      else a @ ''/'' @ b)"

text \<open>The name of \<open>p\<close> inside directory \<open>d\<close>, when \<open>p\<close> is directly in it.\<close>

definition child_name :: "string \<Rightarrow> string \<Rightarrow> string list" where
  "child_name d p =
     (let n = drop (length d + 1) p
      in if take (length d + 1) p = d @ ''/'' \<and> n \<noteq> [] \<and> CHR ''/'' \<notin> set n then [n] else [])"

definition listdir :: "fs \<Rightarrow> string \<Rightarrow> py_error + string list" where
  "listdir s d =
     (if d \<in> set (dirs s)
      then Inr (concat (map (child_name d) (map fst (files s) @ dirs s)))
      else Inl NotADirectoryError)"

text \<open>\<^verbatim>\<open>os.path.dirname\<close> and \<^verbatim>\<open>os.path.basename\<close> (posixpath).\<close>

definition basename :: "string \<Rightarrow> string" where
  "basename p = rev (takeWhile (\<lambda>c. c \<noteq> CHR ''/'') (rev p))"

definition dirname :: "string \<Rightarrow> string" where
  "dirname p =
     (let head = rev (dropWhile (\<lambda>c. c \<noteq> CHR ''/'') (rev p))
      in if filter (\<lambda>c. c \<noteq> CHR ''/'') head \<noteq> []
         then rev (dropWhile (\<lambda>c. c = CHR ''/'') (rev head)) else head)"

section \<open>The web server: load\_data and get\_readings\<close>

text \<open>What \<^verbatim>\<open>load_data\<close> prints, in order.\<close>

datatype printed =
    WarnNoFolder
  | SkipUnrecognized string
  | ErrorReading string
  | AddingEntry datetime
  | InvalidTimestamp pyval

definition DATA_FOLDER :: string where
  "DATA_FOLDER = ''data''"

definition startswith :: "string \<Rightarrow> string \<Rightarrow> bool" where
  "startswith s p = (take (length p) s = p)"

definition endswith :: "string \<Rightarrow> string \<Rightarrow> bool" where
  "endswith s p = (length p \<le> length s \<and> drop (length s - length p) s = p)"

fun split_on :: "char \<Rightarrow> string \<Rightarrow> string list" where
  "split_on c [] = [[]]"
| "split_on c (x # xs) =
     (if x = c then [] # split_on c xs
      else (case split_on c xs of [] \<Rightarrow> [[x]] | w # ws \<Rightarrow> (x # w) # ws))"

text \<open>
  \<^verbatim>\<open>datetime.strptime(filename.split('_')[1], "%Y%m%d").date()\<close>, with the IndexError
  and the ValueError it can raise.
\<close>

definition file_date :: "string \<Rightarrow> py_error + date" where
  "file_date filename =
     (case split_on CHR ''_'' filename of
        a # date_part # _ \<Rightarrow>
          (case strptime_ymd date_part of Inl e \<Rightarrow> Inl e | Inr dt \<Rightarrow> Inr (date_of dt))
      | _ \<Rightarrow> Inl IndexError)"

text \<open>Step 2 of \<^verbatim>\<open>load_data\<close>: the loop that fills \<^verbatim>\<open>relevant_files\<close>.\<close>

fun relevant_files :: "date \<Rightarrow> date \<Rightarrow> string list \<Rightarrow> printed list \<times> string list" where
  "relevant_files lo hi [] = ([], [])"
| "relevant_files lo hi (filename # rest) =
     (let (lg, rel) = relevant_files lo hi rest
      in if startswith filename ''sensor_'' \<and> endswith filename ''.json''
         then (case file_date filename of
                 Inl e \<Rightarrow> (SkipUnrecognized filename # lg, rel)
               | Inr fd \<Rightarrow>
                   if lo \<le> fd \<and> fd \<le> hi then (lg, filename # rel)
                   else (lg, rel))
         else (lg, rel))"

text \<open>
  What \<^verbatim>\<open>combined_data.extend(day_data)\<close> appends: the elements of a list, the keys of
  a dict, the characters of a string; anything else is not iterable (TypeError).
\<close>

definition iter_values :: "pyval \<Rightarrow> py_error + pyval list" where
  "iter_values v =
     (case v of
        PList xs \<Rightarrow> Inr xs
      | PDict kvs \<Rightarrow> Inr (map (\<lambda>kv. PStr (fst kv)) kvs)
      | PStr s \<Rightarrow> Inr (map (\<lambda>c. PStr [c]) s)
      | _ \<Rightarrow> Inl TypeError)"

text \<open>Step 3: every exception of open, load and extend is caught, printed and skipped.\<close>

fun load_files :: "fs \<Rightarrow> string list \<Rightarrow> printed list \<times> pyval list" where
  "load_files s [] = ([], [])"
| "load_files s (filename # rest) =
     (let (lg, combined) = load_files s rest
      in case map_of (files s) (path_join DATA_FOLDER filename) of
           Some (Json day_data) \<Rightarrow>
             (case iter_values day_data of
                Inr xs \<Rightarrow> (lg, xs @ combined)
              | Inl e \<Rightarrow> (ErrorReading filename # lg, combined))
         | _ \<Rightarrow> (ErrorReading filename # lg, combined))"

text \<open>
  \<^verbatim>\<open>datetime.strptime(entry['ts'], "%Y-%m-%dT%H:%M:%SZ")\<close>: KeyError when a dict has no
  \<^verbatim>\<open>ts\<close>, TypeError when the entry is not a dict or \<^verbatim>\<open>ts\<close> is not a string, ValueError
  when the string does not parse.
\<close>

definition entry_ts :: "pyval \<Rightarrow> py_error + datetime" where
  "entry_ts entry =
     (case entry of
        PDict kvs \<Rightarrow>
          (case map_of kvs ''ts'' of
             None \<Rightarrow> Inl KeyError
           | Some (PStr s) \<Rightarrow> strptime_ts s
           | Some _ \<Rightarrow> Inl TypeError)
      | _ \<Rightarrow> Inl TypeError)"

text \<open>Step 4: only ValueError is caught; any other exception leaves \<^verbatim>\<open>load_data\<close>.\<close>

fun filter_entries ::
  "datetime \<Rightarrow> datetime \<Rightarrow> pyval list \<Rightarrow> printed list \<times> (py_error + pyval list)" where
  "filter_entries start_dt end_dt [] = ([], Inr [])"
| "filter_entries start_dt end_dt (entry # rest) =
     (case entry_ts entry of
        Inl e \<Rightarrow>
          if e = ValueError
          then (let (lg, r) = filter_entries start_dt end_dt rest
                in (InvalidTimestamp entry # lg, r))
          else ([], Inl e)
      | Inr t \<Rightarrow>
          if dt_le start_dt t \<and> dt_le t end_dt
          then (let (lg, r) = filter_entries start_dt end_dt rest
                in (AddingEntry t # lg, map_sum id (Cons entry) r))
          else filter_entries start_dt end_dt rest)"

text \<open>
  The sort key \<^verbatim>\<open>x['ts']\<close>: the string itself, not the parsed datetime. Every entry
  that reaches the sort has a string there (it has just been parsed).
\<close>

definition ts_key :: "pyval \<Rightarrow> string" where
  "ts_key entry =
     (case entry of
        PDict kvs \<Rightarrow> (case map_of kvs ''ts'' of Some (PStr s) \<Rightarrow> s | _ \<Rightarrow> [])
      | _ \<Rightarrow> [])"

text \<open>
  Steps 1 and 2 of \<^verbatim>\<open>load_data\<close>: the listing, the window of days and the loop over
  the sorted names. \<open>candidates\<close> is the list \<^verbatim>\<open>relevant_files\<close> that step 3 loads.
\<close>

definition scan_folder ::
  "fs \<Rightarrow> datetime \<Rightarrow> datetime \<Rightarrow> py_error + printed list \<times> string list" where
  "scan_folder s start_dt end_dt =
     (case listdir s DATA_FOLDER of
        Inl e \<Rightarrow> Inl e
      | Inr all_files \<Rightarrow>
          (case dt_minus start_dt 1 0 of
             Inl e \<Rightarrow> Inl e
           | Inr before \<Rightarrow>
               (let search_start_date = date_of before;
                    search_end_date = date_of end_dt
                in Inr (relevant_files search_start_date search_end_date (sort all_files)))))"

definition candidates :: "fs \<Rightarrow> datetime \<Rightarrow> datetime \<Rightarrow> string list" where
  "candidates s start_dt end_dt =
     (case scan_folder s start_dt end_dt of Inl e \<Rightarrow> [] | Inr (lg, relevant) \<Rightarrow> relevant)"

definition load_data ::
  "fs \<Rightarrow> datetime \<Rightarrow> datetime \<Rightarrow> printed list \<times> (py_error + pyval list)" where
  "load_data s start_dt end_dt =
     (if \<not> path_exists s DATA_FOLDER then ([WarnNoFolder], Inr [])
      else case scan_folder s start_dt end_dt of
        Inl e \<Rightarrow> ([], Inl e)
      | Inr (lg1, relevant) \<Rightarrow>
          (let (lg2, combined_data) = load_files s relevant;
               (lg3, filtered_data) = filter_entries start_dt end_dt combined_data
           in (lg1 @ lg2 @ lg3, map_sum id (sort_key ts_key) filtered_data)))"

text \<open>
  A request carries the optional query parameters \<^verbatim>\<open>range\<close> and \<^verbatim>\<open>date\<close>; the clock
  gives \<^verbatim>\<open>datetime.utcnow()\<close> and \<^verbatim>\<open>datetime.today().date()\<close>.
\<close>

record request =
  range_arg :: "string option"
  date_arg :: "string option"

record clock =
  utcnow :: datetime
  today :: date

text \<open>The timedelta of the if/elif chain, as (days, seconds).\<close>

definition range_delta :: "string \<Rightarrow> nat \<times> nat" where
  "range_delta time_range =
     (if time_range = ''6h'' then (0, 21600)
      else if time_range = ''12h'' then (0, 43200)
      else if time_range = ''24h'' then (1, 0)
      else if time_range = ''3d'' then (3, 0)
      else if time_range = ''7d'' then (7, 0)
      else if time_range = ''1m'' then (30, 0)
      else (1, 0))"

definition end_time_of :: "clock \<Rightarrow> string option \<Rightarrow> py_error + datetime" where
  "end_time_of clk ref_date_str =
     (case ref_date_str of
        None \<Rightarrow> Inr (utcnow clk)
      | Some r \<Rightarrow>
          if r = [] then Inr (utcnow clk)
          else (case strptime_date r of
                  Inl e \<Rightarrow> Inl e
                | Inr end_time \<Rightarrow>
                    if date_of end_time = today clk then Inr (utcnow clk)
                    else Inr (end_time\<lparr>hour := 23, minute := 59, second := 59\<rparr>)))"

definition get_readings ::
  "fs \<Rightarrow> clock \<Rightarrow> request \<Rightarrow> printed list \<times> (py_error + pyval list)" where
  "get_readings s clk req =
     (let time_range = (case range_arg req of None \<Rightarrow> ''24h'' | Some r \<Rightarrow> r)
      in case end_time_of clk (date_arg req) of
           Inl e \<Rightarrow> ([], Inl e)
         | Inr end_time \<Rightarrow>
             (case dt_minus end_time (fst (range_delta time_range))
                     (snd (range_delta time_range)) of
                Inl e \<Rightarrow> ([], Inl e)
              | Inr start_time \<Rightarrow> load_data s start_time end_time))"

text \<open>
  Two notions to state the order of a result. \<open>written_form s\<close>: the string is what the
  collector writes for the instant it parses to. \<open>time_le x y\<close>: both records have a
  timestamp that parses, and that of \<open>x\<close> is not after that of \<open>y\<close>.
\<close>

definition written_form :: "string \<Rightarrow> bool" where
  "written_form s = (case strptime_ts s of Inl e \<Rightarrow> False | Inr t \<Rightarrow> s = isoformat t @ ''Z'')"

definition time_le :: "pyval \<Rightarrow> pyval \<Rightarrow> bool" where
  "time_le x y =
     (case entry_ts x of
        Inl e \<Rightarrow> False
      | Inr tx \<Rightarrow> (case entry_ts y of Inl e \<Rightarrow> False | Inr ty \<Rightarrow> dt_le tx ty))"

text \<open>
  The file name that the naming scheme gives the segment created at \<open>cs\<close>:
  \<^verbatim>\<open>sensor_YYYYMMDD_HHMMSS.json\<close>.
\<close>

definition segment_name :: "datetime \<Rightarrow> string" where
  "segment_name cs = ''sensor_'' @ strftime_stamp cs @ ''.json''"

section \<open>The collector\<close>

subsection \<open>The sensor and read\_sensor\_values\<close>

text \<open>
  The hub library declares the attributes of an environment sensor as optional numbers.
  Reading one gives a float, an int or None, or raises (\<open>AttrRaises\<close>: the attribute
  is not there, or holds something that \<^verbatim>\<open>float()\<close> rejects). A sensor object without
  \<^verbatim>\<open>attributes\<close> has \<open>attributes = None\<close>: every access through it raises.
\<close>

datatype attr = AttrRaises | AttrNone | AttrFloat real | AttrInt int

record attributes =
  custom_name :: "string option"
  current_temperature :: attr
  current_r_h :: attr
  battery_percentage :: attr

record sensor =
  attributes :: "attributes option"

text \<open>The hub: the sensors it lists, or None when the request to it raises.\<close>

type_synonym hub = "sensor list option"

fun first_named :: "string \<Rightarrow> sensor list \<Rightarrow> sensor option" where
  "first_named name [] = None"
| "first_named name (s # sensors) =
     (case attributes s of
        None \<Rightarrow> first_named name sensors
      | Some a \<Rightarrow> if custom_name a = Some name then Some s else first_named name sensors)"

definition find_sensor :: "hub \<Rightarrow> string \<Rightarrow> sensor option" where
  "find_sensor h name = (case h of None \<Rightarrow> None | Some sensors \<Rightarrow> first_named name sensors)"

text \<open>
  One \<^verbatim>\<open>try: x = float(sensor.attributes.a) except Exception: x = None\<close>: None is the
  except branch.
\<close>

definition try_float :: "sensor \<Rightarrow> (attributes \<Rightarrow> attr) \<Rightarrow> real option" where
  "try_float s a =
     (case attributes s of
        None \<Rightarrow> None
      | Some attrs \<Rightarrow>
          (case a attrs of
             AttrRaises \<Rightarrow> None
           | AttrNone \<Rightarrow> None
           | AttrFloat x \<Rightarrow> Some x
           | AttrInt i \<Rightarrow> Some (of_int i)))"

definition py_opt :: "real option \<Rightarrow> pyval" where
  "py_opt v = (case v of None \<Rightarrow> PNone | Some x \<Rightarrow> PFloat x)"

text \<open>The first argument is what \<^verbatim>\<open>datetime.utcnow()\<close> returns inside the call.\<close>

definition read_sensor_values :: "datetime \<Rightarrow> sensor \<Rightarrow> pyval" where
  "read_sensor_values clock_now s =
     (let now = isoformat (clock_now\<lparr>microsecond := 0\<rparr>) @ ''Z'';
          temp = try_float s current_temperature;
          rh = try_float s current_r_h;
          pwr = try_float s battery_percentage
      in PDict [(''ts'', PStr now), (''temperature_c'', py_opt temp),
                (''humidity_rh'', py_opt rh), (''battery_percentage'', py_opt pwr)])"

subsection \<open>atomic\_write\_json and append\_reading\<close>

text \<open>
  \<^verbatim>\<open>os.makedirs(dname, exist_ok=True)\<close>, on the directory itself (its parents are not
  modelled): nothing when it is there, FileExistsError when the path is a file.
\<close>

definition makedirs :: "fs \<Rightarrow> string \<Rightarrow> py_error + fs" where
  "makedirs s d =
     (if d \<in> set (dirs s) then Inr s
      else if d \<in> set (map fst (files s)) then Inl FileExistsError
      else Inr (s\<lparr>dirs := d # dirs s\<rparr>))"

text \<open>
  \<^verbatim>\<open>tempfile.mkstemp(dir=d, prefix=pre)\<close> tries random names until one does not exist
  and creates that file, empty. \<open>names\<close> are the names its generator yields; when all
  of them exist it gives up with FileExistsError.
\<close>

definition mkstemp :: "fs \<Rightarrow> string \<Rightarrow> string \<Rightarrow> string list \<Rightarrow> py_error + string \<times> fs" where
  "mkstemp s d pre names =
     (case filter (\<lambda>n. \<not> path_exists s (path_join d (pre @ n))) names of
        [] \<Rightarrow> Inl FileExistsError
      | n # _ \<Rightarrow>
          (let tmp = path_join d (pre @ n)
           in Inr (tmp, s\<lparr>files := AList.update tmp Corrupt (files s)\<rparr>)))"

definition write_file :: "fs \<Rightarrow> string \<Rightarrow> file_data \<Rightarrow> fs" where
  "write_file s p c = s\<lparr>files := AList.update p c (files s)\<rparr>"

definition remove_file :: "fs \<Rightarrow> string \<Rightarrow> fs" where
  "remove_file s p = s\<lparr>files := AList.delete p (files s)\<rparr>"

text \<open>
  \<^verbatim>\<open>os.rename\<close> inside one file system: in one step the destination holds what the
  source held and the source is gone.
\<close>

definition rename :: "fs \<Rightarrow> string \<Rightarrow> string \<Rightarrow> fs" where
  "rename s src dst =
     (case map_of (files s) src of
        None \<Rightarrow> s
      | Some c \<Rightarrow> s\<lparr>files := AList.update dst c (AList.delete src (files s))\<rparr>)"

text \<open>
  \<^verbatim>\<open>shutil.move(src, dst)\<close>: into \<open>dst\<close> when that is a directory (an error when the
  name is taken there), and a rename otherwise.
\<close>

definition shutil_move :: "fs \<Rightarrow> string \<Rightarrow> string \<Rightarrow> py_error + fs" where
  "shutil_move s src dst =
     (if dst \<in> set (dirs s)
      then (let real_dst = path_join dst (basename src)
            in if path_exists s real_dst then Inl ShutilError
               else Inr (rename s src real_dst))
      else Inr (rename s src dst))"

text \<open>
  \<^verbatim>\<open>atomic_write_json(path, data)\<close> as the list of the states the disk goes through,
  the first one being the state before the call and the last one the state after it,
  with the exception that leaves the call, if one does. While \<^verbatim>\<open>json.dump\<close> writes,
  the temporary file is partially written: it is \<open>Corrupt\<close>, as it is just after its
  creation. The \<^verbatim>\<open>finally\<close> block removes the temporary file when it still exists.
\<close>

definition finally_remove :: "fs \<Rightarrow> string \<Rightarrow> fs" where
  "finally_remove s tmp = (if path_exists s tmp then remove_file s tmp else s)"

definition atomic_write_json ::
  "string list \<Rightarrow> fs \<Rightarrow> string \<Rightarrow> pyval \<Rightarrow> fs list \<times> py_error option" where
  "atomic_write_json names s0 path data =
     (let dname = dirname path
      in case (if dname \<noteq> [] then makedirs s0 dname else Inr s0) of
           Inl e \<Rightarrow> ([s0], Some e)
         | Inr s1 \<Rightarrow>
             (case mkstemp s1 (if dname \<noteq> [] then dname else ''.'') ''.tmp_json_'' names of
                Inl e \<Rightarrow> ([s0, s1], Some e)
              | Inr (tmp, s2) \<Rightarrow>
                  (let s3 = write_file s2 tmp (Json data)
                   in case shutil_move s3 tmp path of
                        Inl e \<Rightarrow> ([s0, s1, s2, s3, finally_remove s3 tmp], Some e)
                      | Inr s4 \<Rightarrow> ([s0, s1, s2, s3, s4, finally_remove s4 tmp], None))))"

text \<open>What the collector logs and does besides writing the segment.\<close>

datatype event =
    FailedReadExisting
  | SensorNotFound
  | Appended pyval
  | FailedReadAppend
  | CycleComplete string
  | PlotDay string string
  | NoDataFile string
  | FailedLoadForPlot
  | DataFileEmpty string
  | Rendering string string
  | NewCycle string
  | Sleep nat

text \<open>
  \<^verbatim>\<open>append_reading(path, reading)\<close>: the log, the states of the disk and the exception,
  if any. \<^verbatim>\<open>payload.append\<close> is an AttributeError when the file holds JSON that is
  not a list.
\<close>

definition load_payload :: "fs \<Rightarrow> string \<Rightarrow> event list \<times> pyval" where
  "load_payload s path =
     (if path_exists s path
      then (case map_of (files s) path of
              Some (Json payload) \<Rightarrow> ([], payload)
            | _ \<Rightarrow> ([FailedReadExisting], PList []))
      else ([], PList []))"

definition append_reading ::
  "string list \<Rightarrow> fs \<Rightarrow> string \<Rightarrow> pyval \<Rightarrow> event list \<times> fs list \<times> py_error option" where
  "append_reading names s path reading =
     (let (lg, payload) = load_payload s path
      in case payload of
           PList xs \<Rightarrow> (lg, atomic_write_json names s path (PList (xs @ [reading])))
         | _ \<Rightarrow> (lg, [s], Some AttributeError))"

subsection \<open>One iteration of main\_loop\<close>

record config =
  sensor_name :: string
  interval_seconds :: nat
  seconds_per_cycle :: int
  store_plots :: bool

record loop_state =
  cycle_start :: datetime
  json_path :: string
  sensor :: "sensor option"
  disk :: fs

text \<open>
  What one iteration reads from outside: the clock at the top of the loop (\<open>now\<close>),
  inside \<^verbatim>\<open>read_sensor_values\<close> and at the rotation, the hub at each of the two
  \<^verbatim>\<open>find_sensor\<close> calls, the names \<^verbatim>\<open>mkstemp\<close> draws, and how the drawing part of
  \<^verbatim>\<open>plot_day\<close> ends.
\<close>

record tick_input =
  now :: datetime
  hub_first :: hub
  hub_second :: hub
  read_time :: datetime
  rotate_time :: datetime
  tmp_names :: "string list"
  render :: "py_error option"

definition json_path_of :: "datetime \<Rightarrow> string" where
  "json_path_of cs = ''data/sensor_'' @ strftime_stamp cs @ ''.json''"

definition png_path_of :: "datetime \<Rightarrow> string" where
  "png_path_of cs = ''plots/sensor_'' @ strftime_stamp cs @ ''.png''"

text \<open>
  \<^verbatim>\<open>(now - cycle_start).total_seconds() >= seconds_per_cycle\<close>: a float against an
  int, which Python compares by their exact values.
\<close>

definition should_rotate :: "config \<Rightarrow> datetime \<Rightarrow> datetime \<Rightarrow> bool" where
  "should_rotate cfg t cs = (real_of_int (seconds_per_cycle cfg) \<le> total_seconds t cs)"

text \<open>The truth value of a Python value, as \<^verbatim>\<open>if not data\<close> takes it.\<close>

definition truthy :: "pyval \<Rightarrow> bool" where
  "truthy v =
     (case v of
        PNone \<Rightarrow> False
      | PBool b \<Rightarrow> b
      | PInt i \<Rightarrow> i \<noteq> 0
      | PFloat x \<Rightarrow> x \<noteq> 0
      | PStr s \<Rightarrow> s \<noteq> []
      | PList xs \<Rightarrow> xs \<noteq> []
      | PDict kvs \<Rightarrow> kvs \<noteq> [])"

text \<open>
  \<^verbatim>\<open>plot_day(json_path, png_path)\<close> (the arguments are \<open>json_file\<close> and \<open>png_file\<close>
  here, \<open>json_path\<close> being a field of the loop's state): what it logs, and the exception that leaves it, if
  one does. It returns early when the file is not there, does not load or holds
  something false. \<^verbatim>\<open>for row in data\<close> is outside any \<^verbatim>\<open>try\<close>: data that cannot be
  iterated is a TypeError that leaves the function. From the body of that loop on (the
  rows are parsed under their own \<^verbatim>\<open>try\<close>, the figures are drawn and saved into
  \<^verbatim>\<open>plots\<close>) the function works outside the model: \<open>rendered\<close> is how that part
  ends, None when it returns and the exception when it raises. The figures are not
  files of the model.
\<close>

definition plot_day :: "fs \<Rightarrow> py_error option \<Rightarrow> string \<Rightarrow> string \<Rightarrow> event list \<times> py_error option" where
  "plot_day s rendered json_file png_file =
     (if \<not> path_exists s json_file then ([NoDataFile json_file], None)
      else case map_of (files s) json_file of
             Some (Json data) \<Rightarrow>
               if \<not> truthy data then ([DataFileEmpty json_file], None)
               else (case iter_values data of
                       Inl e \<Rightarrow> ([], Some e)
                     | Inr rows \<Rightarrow> ([Rendering json_file png_file], rendered))
           | _ \<Rightarrow> ([FailedLoadForPlot], None))"

text \<open>
  One iteration: the log, the state after it, and the exception that ends
  \<^verbatim>\<open>main_loop\<close>, if one leaves the iteration. The \<^verbatim>\<open>try\<close> around the reading and the
  append catches every exception; the call of \<^verbatim>\<open>plot_day\<close> is under no handler (but
  that of KeyboardInterrupt, which is not modelled), so an exception of \<^verbatim>\<open>plot_day\<close>
  ends the loop before \<open>cycle_start\<close> and \<open>json_path\<close> are set anew.
\<close>

definition tick ::
  "config \<Rightarrow> tick_input \<Rightarrow> loop_state \<Rightarrow> event list \<times> loop_state \<times> py_error option" where
  "tick cfg inp st =
     (case (case sensor st of
              None \<Rightarrow> find_sensor (hub_first inp) (sensor_name cfg)
            | Some s \<Rightarrow> Some s) of
        None \<Rightarrow> ([SensorNotFound, Sleep (interval_seconds cfg)], st, None)
      | Some s1 \<Rightarrow>
          (let s2 = (case find_sensor (hub_second inp) (sensor_name cfg) of
                       None \<Rightarrow> s1 | Some s \<Rightarrow> s);
               reading = read_sensor_values (read_time inp) s2;
               (lg, states, err) = append_reading (tmp_names inp) (disk st) (json_path st) reading;
               ev1 = lg @ (case err of None \<Rightarrow> [Appended reading] | Some e \<Rightarrow> [FailedReadAppend]);
               st1 = st\<lparr>sensor := Some s2, disk := last states\<rparr>
           in if should_rotate cfg (now inp) (cycle_start st)
              then (let png_path = png_path_of (cycle_start st);
                        (pl, raised) =
                           (if store_plots cfg
                            then (let (l, r) = plot_day (disk st1) (render inp) (json_path st) png_path
                                  in (PlotDay (json_path st) png_path # l, r))
                            else ([], None))
                    in case raised of
                         Some e \<Rightarrow> (ev1 @ CycleComplete png_path # pl, st1, Some e)
                       | None \<Rightarrow>
                           (let new_start = rotate_time inp;
                                new_path = json_path_of new_start
                            in (ev1 @ CycleComplete png_path # pl
                                  @ [NewCycle new_path, Sleep (interval_seconds cfg)],
                                st1\<lparr>cycle_start := new_start, json_path := new_path\<rparr>, None)))
              else (ev1 @ [Sleep (interval_seconds cfg)], st1, None)))"

text \<open>The state with which \<^verbatim>\<open>main_loop\<close> enters its loop.\<close>

definition initial_state :: "datetime \<Rightarrow> fs \<Rightarrow> loop_state" where
  "initial_state t d = \<lparr>cycle_start = t, json_path = json_path_of t, sensor = None, disk = d\<rparr>"

section \<open>Formatting and parsing are inverse\<close>

lemma of_char_digit_char: "of_char (digit_char n) = 48 + n mod 10"
  by (simp add: digit_char_def)

lemma digit_val_digit_char [simp]: "digit_val (digit_char n) = Some (n mod 10)"
  by (simp add: digit_char_def digit_val_def)

lemma digit_char_neq [simp]:
  "digit_char n \<noteq> CHR ''-''" "digit_char n \<noteq> CHR '':''" "digit_char n \<noteq> CHR ''T''"
  "digit_char n \<noteq> CHR ''t''" "digit_char n \<noteq> CHR ''Z''" "digit_char n \<noteq> CHR ''z''"
  "digit_char n \<noteq> CHR '' ''" "digit_char n \<noteq> CHR ''_''" "digit_char n \<noteq> CHR ''.''"
  "digit_char n \<noteq> CHR ''/''"
  using of_char_digit_char [of n] by auto

lemma two_digits_pad2:
  "n < 100 \<Longrightarrow> two_digits P (pad2 n @ r) = (if P (n div 10) (n mod 10) then [(n, r)] else [])"
  by (simp add: pad2_def)

lemma one_digit_pad2:
  "n < 100 \<Longrightarrow> one_digit P (pad2 n @ r) = (if P (n div 10) then [(n div 10, digit_char n # r)] else [])"
  by (simp add: pad2_def)

lemma re_Y_pad4: "y < 10000 \<Longrightarrow> re_Y (pad4 y @ r) = [(y, r)]"
proof -
  assume y: "y < 10000"
  then have "y div 100 < 100" by simp
  moreover have "y mod 100 < 100" by simp
  ultimately show ?thesis by (simp add: re_Y_def pad4_def two_digits_pad2)
qed

lemma tens:
  fixes n k :: nat
  assumes "10 * k \<le> n" "n < 10 * k + 10"
  shows "n div 10 = k" and "n mod 10 = n - 10 * k"
proof -
  show d: "n div 10 = k"
    using assms by (intro div_nat_eqI) simp_all
  show "n mod 10 = n - 10 * k"
    by (simp add: modulo_nat_def d)
qed


lemma re_m_pad2:
  assumes "1 \<le> m" "m \<le> 12"
  shows "re_m (pad2 m @ r) = (m, r) # (if 10 \<le> m then [(m div 10, digit_char m # r)] else [])"
proof (cases "m < 10")
  case True
  then have "m div 10 = 0" "m mod 10 = m" by simp_all
  with assms True show ?thesis by (simp add: re_m_def two_digits_pad2 one_digit_pad2)
next
  case False
  with assms have "m div 10 = 1" "m mod 10 = m - 10" using tens [of 1 m] by simp_all
  with assms False show ?thesis by (simp add: re_m_def two_digits_pad2 one_digit_pad2)
qed

lemma re_d_pad2:
  assumes "1 \<le> d" "d \<le> 31"
  shows "re_d (pad2 d @ r) = (d, r) # (if 10 \<le> d then [(d div 10, digit_char d # r)] else [])"
proof -
  have sp: "lit '' '' (pad2 d @ r) = []" by (simp add: pad2_def)
  consider "d < 10" | "10 \<le> d" "d < 20" | "20 \<le> d" "d < 30" | "30 \<le> d" by linarith
  then show ?thesis
  proof cases
    case 1
    then have "d div 10 = 0" "d mod 10 = d" by simp_all
    with assms 1 show ?thesis by (simp add: re_d_def two_digits_pad2 one_digit_pad2 sp)
  next
    case 2
    then have "d div 10 = 1" using tens [of 1 d] by simp
    with assms 2 show ?thesis by (simp add: re_d_def two_digits_pad2 one_digit_pad2 sp)
  next
    case 3
    then have "d div 10 = 2" using tens [of 2 d] by simp
    with assms 3 show ?thesis by (simp add: re_d_def two_digits_pad2 one_digit_pad2 sp)
  next
    case 4
    with assms have "d div 10 = 3" "d mod 10 = d - 30" using tens [of 3 d] by simp_all
    with assms 4 show ?thesis by (simp add: re_d_def two_digits_pad2 one_digit_pad2 sp)
  qed
qed


lemma re_H_pad2:
  assumes "h < 24"
  shows "re_H (pad2 h @ r) = [(h, r), (h div 10, digit_char h # r)]"
proof -
  consider "h < 10" | "10 \<le> h" "h < 20" | "20 \<le> h" by linarith
  then show ?thesis
  proof cases
    case 1
    then have "h div 10 = 0" by simp
    with assms show ?thesis by (simp add: re_H_def two_digits_pad2 one_digit_pad2)
  next
    case 2
    then have "h div 10 = 1" using tens [of 1 h] by simp
    with assms show ?thesis by (simp add: re_H_def two_digits_pad2 one_digit_pad2)
  next
    case 3
    with assms have "h div 10 = 2" "h mod 10 = h - 20" using tens [of 2 h] by simp_all
    with assms show ?thesis by (simp add: re_H_def two_digits_pad2 one_digit_pad2)
  qed
qed

lemma div10_le5:
  fixes n :: nat
  assumes "n < 60"
  shows "n div 10 \<le> 5"
proof -
  have "n div 10 < 6" using assms by (intro less_mult_imp_div_less) simp
  then show ?thesis by simp
qed

lemma re_M_pad2:
  assumes "n < 60"
  shows "re_M (pad2 n @ r) = [(n, r), (n div 10, digit_char n # r)]"
  using assms div10_le5 [OF assms] by (simp add: re_M_def two_digits_pad2 one_digit_pad2)

lemma re_S_pad2:
  assumes "n < 60"
  shows "re_S (pad2 n @ r) = [(n, r), (n div 10, digit_char n # r)]"
  using assms div10_le5 [OF assms] by (simp add: re_S_def two_digits_pad2 one_digit_pad2)


lemma days_in_month_le: "days_in_month y m \<le> 31"
  by (simp add: days_in_month_def)

lemma strptime_ts_isoformat:
  assumes "valid_datetime t" "microsecond t = 0"
  shows "strptime_ts (isoformat t @ ''Z'') = Inr t"
proof -
  from assms have y: "year t < 10000" and m: "1 \<le> month t" "month t \<le> 12"
    and d: "1 \<le> day t" "day t \<le> 31" and h: "hour t < 24" and mi: "minute t < 60"
    and s: "second t < 60"
    using days_in_month_le [of "year t" "month t"]
    by (auto simp: valid_datetime_def valid_date_def date_of_def)
  have "mk_datetime (year t, month t, day t, hour t, minute t, second t) = Inr t"
    using assms by (simp add: mk_datetime_def valid_datetime_def date_of_def)
  then show ?thesis
    using assms(2)
    by (simp add: strptime_ts_def isoformat_def first_full_match_def
        re_Y_pad4 [OF y] re_m_pad2 [OF m] re_d_pad2 [OF d] re_H_pad2 [OF h]
        re_M_pad2 [OF mi] re_S_pad2 [OF s])
qed

lemma digit_char_eval: "digit_char n = ''0123456789'' ! (n mod 10)"
proof -
  have a: "list_all (\<lambda>k. char_of (48 + k) = ''0123456789'' ! k) [0 ..< 10]"
    by code_simp
  have "n mod 10 \<in> set [0 ..< 10]" by simp
  with a show ?thesis
    unfolding digit_char_def list_all_iff by blast
qed

section \<open>read\_sensor\_values\<close>

text \<open>
  Claim C10. \<^verbatim>\<open>read_sensor_values\<close> returns for every sensor object, also one whose
  attribute accesses all fail, a dict with exactly the keys \<^verbatim>\<open>ts\<close>,
  \<^verbatim>\<open>temperature_c\<close>, \<^verbatim>\<open>humidity_rh\<close> and \<^verbatim>\<open>battery_percentage\<close>, in which \<^verbatim>\<open>ts\<close>
  is the clock's instant cut to the second, in ISO-8601 form with a final Z (it parses
  back to that instant), and each of the three other values is a float or None.
\<close>

theorem read_sensor_values_total:
  assumes "valid_datetime t"
  shows "\<exists>ts temp rh pwr.
           read_sensor_values t s =
             PDict [(''ts'', PStr ts), (''temperature_c'', temp), (''humidity_rh'', rh),
                    (''battery_percentage'', pwr)]
           \<and> ts = isoformat (t\<lparr>microsecond := 0\<rparr>) @ ''Z''
           \<and> strptime_ts ts = Inr (t\<lparr>microsecond := 0\<rparr>)
           \<and> (temp = PNone \<or> (\<exists>x. temp = PFloat x))
           \<and> (rh = PNone \<or> (\<exists>x. rh = PFloat x))
           \<and> (pwr = PNone \<or> (\<exists>x. pwr = PFloat x))
           \<and> (attributes s = None \<longrightarrow> temp = PNone \<and> rh = PNone \<and> pwr = PNone)"
proof -
  have v: "valid_datetime (t\<lparr>microsecond := 0\<rparr>)"
    using assms by (simp add: valid_datetime_def date_of_def)
  have p: "strptime_ts (isoformat (t\<lparr>microsecond := 0\<rparr>) @ ''Z'') = Inr (t\<lparr>microsecond := 0\<rparr>)"
    by (rule strptime_ts_isoformat [OF v]) simp
  have o: "py_opt w = PNone \<or> (\<exists>x. py_opt w = PFloat x)" for w
    by (cases w) (simp_all add: py_opt_def)
  have n: "attributes s = None \<Longrightarrow> py_opt (try_float s a) = PNone" for a
    by (simp add: try_float_def py_opt_def)
  show ?thesis
    unfolding read_sensor_values_def Let_def
    apply (intro exI conjI)
          apply (rule refl)
         apply (rule refl)
        apply (rule p)
       apply (rule o)
      apply (rule o)
     apply (rule o)
    apply (simp add: n)
    done
qed



theorem read_sensor_values_total_witness:
  "valid_datetime \<lparr>year = 2025, month = 11, day = 20, hour = 10, minute = 2, second = 0,
                    microsecond = 123456\<rparr>
   \<and> read_sensor_values
        \<lparr>year = 2025, month = 11, day = 20, hour = 10, minute = 2, second = 0,
         microsecond = 123456\<rparr>
        \<lparr>attributes = None\<rparr>
      = PDict [(''ts'', PStr ''2025-11-20T10:02:00Z''), (''temperature_c'', PNone),
               (''humidity_rh'', PNone), (''battery_percentage'', PNone)]
   \<and> strptime_ts ''2025-11-20T10:02:00Z''
      = Inr \<lparr>year = 2025, month = 11, day = 20, hour = 10, minute = 2, second = 0,
             microsecond = 0\<rparr>"
proof -
  let ?t = "\<lparr>year = 2025, month = 11, day = 20, hour = 10, minute = 2, second = 0,
             microsecond = 123456\<rparr>"
  let ?z = "\<lparr>year = 2025, month = 11, day = 20, hour = 10, minute = 2, second = 0,
             microsecond = 0\<rparr>"
  have v: "valid_datetime ?t"
    by (simp add: valid_datetime_def valid_date_def date_of_def days_in_month_def)
  have u: "?t\<lparr>microsecond := 0\<rparr> = ?z" by simp
  have i: "isoformat ?z @ ''Z'' = ''2025-11-20T10:02:00Z''"
    by (simp add: isoformat_def pad4_def pad2_def digit_char_eval)
  have r: "read_sensor_values ?t \<lparr>attributes = None\<rparr>
      = PDict [(''ts'', PStr ''2025-11-20T10:02:00Z''), (''temperature_c'', PNone),
               (''humidity_rh'', PNone), (''battery_percentage'', PNone)]"
    unfolding read_sensor_values_def Let_def u i by (simp add: try_float_def py_opt_def)
  from read_sensor_values_total [OF v, of "\<lparr>attributes = None\<rparr>"]
  have "strptime_ts (isoformat (?t\<lparr>microsecond := 0\<rparr>) @ ''Z'') = Inr (?t\<lparr>microsecond := 0\<rparr>)"
    by (elim exE conjE) (simp only:)
  then have p: "strptime_ts ''2025-11-20T10:02:00Z'' = Inr ?z"
    unfolding u i .
  from v r p show ?thesis by (intro conjI)
qed

section \<open>Evaluation on concrete inputs\<close>

lemma days_back_numeral [simp]:
  "days_back (numeral k) d =
     (if d = (1, 1, 1) then None else days_back (pred_numeral k) (prev_day d))"
  by (simp add: numeral_eq_Suc)

lemmas parse_eval = strptime_ts_def strptime_ymd_def strptime_date_def first_full_match_def
  re_Y_def re_m_def re_d_def re_H_def re_M_def re_S_def digit_val_def mk_datetime_def
  valid_datetime_def valid_date_def date_of_def days_in_month_def is_leap_def

lemmas time_eval = dt_minus_def seconds_of_day_def prev_day_def dt_le_def dt_key_def

lemmas format_eval = isoformat_def strftime_stamp_def pad4_def pad2_def digit_char_eval

lemmas fs_eval = path_exists_def path_join_def child_name_def listdir_def DATA_FOLDER_def
  startswith_def endswith_def file_date_def iter_values_def entry_ts_def ts_key_def
  scan_folder_def candidates_def

section \<open>get\_readings: the range parameter\<close>

text \<open>
  Claim C8, as amended. A request whose \<^verbatim>\<open>range\<close> is none of 6h, 12h, 24h, 3d, 7d and 1m
  is not rejected: the final \<^verbatim>\<open>else\<close> of the chain gives it the window of 24 hours, so
  it is answered exactly as a request with \<^verbatim>\<open>range=24h\<close> is, and so is a request
  without the parameter.
\<close>

theorem get_readings_unknown_range:
  assumes "time_range \<notin> {''6h'', ''12h'', ''3d'', ''7d'', ''1m''}"
  shows "get_readings s clk (req\<lparr>range_arg := Some time_range\<rparr>)
           = get_readings s clk (req\<lparr>range_arg := Some ''24h''\<rparr>)
         \<and> get_readings s clk (req\<lparr>range_arg := None\<rparr>)
           = get_readings s clk (req\<lparr>range_arg := Some ''24h''\<rparr>)"
proof -
  have a: "range_delta time_range = (1, 0)"
    using assms by (simp add: range_delta_def)
  have b: "range_delta ''24h'' = (1, 0)"
    by (simp add: range_delta_def)
  show ?thesis
    unfolding get_readings_def Let_def
    by (cases "end_time_of clk (date_arg req)") (simp_all add: a b)
qed

theorem get_readings_unknown_range_witness:
  "''2h'' \<notin> {''6h'', ''12h'', ''3d'', ''7d'', ''1m''}
   \<and> get_readings \<lparr>dirs = [''data''], files = []\<rparr>
         \<lparr>utcnow = \<lparr>year = 2025, month = 11, day = 20, hour = 12, minute = 0, second = 0,
                     microsecond = 0\<rparr>, today = (2025, 11, 20)\<rparr>
         \<lparr>range_arg = Some ''2h'', date_arg = None\<rparr>
       = get_readings \<lparr>dirs = [''data''], files = []\<rparr>
         \<lparr>utcnow = \<lparr>year = 2025, month = 11, day = 20, hour = 12, minute = 0, second = 0,
                     microsecond = 0\<rparr>, today = (2025, 11, 20)\<rparr>
         \<lparr>range_arg = Some ''24h'', date_arg = None\<rparr>"
proof -
  have n: "''2h'' \<notin> {''6h'', ''12h'', ''3d'', ''7d'', ''1m''}" by simp
  show ?thesis
    using get_readings_unknown_range [OF n, of "\<lparr>dirs = [''data''], files = []\<rparr>"
        "\<lparr>utcnow = \<lparr>year = 2025, month = 11, day = 20, hour = 12, minute = 0, second = 0,
                     microsecond = 0\<rparr>, today = (2025, 11, 20)\<rparr>"
        "\<lparr>range_arg = Some ''2h'', date_arg = None\<rparr>"] n
    by simp
qed

text \<open>
  The claim as stated fails: the request \<^verbatim>\<open>range=2h\<close>, sent at 12:00 on 2025-11-20, is
  answered with the reading of 10:00 of that day (inside the last 24 hours, outside the
  last 2), and no error.
\<close>

theorem get_readings_unknown_range_served:
  "''2h'' \<notin> set [''6h'', ''12h'', ''24h'', ''3d'', ''7d'', ''1m'']
   \<and> snd (get_readings
        \<lparr>dirs = [''data''],
         files = [(''data/sensor_20251120_000000.json'',
                   Json (PList [PDict [(''ts'', PStr ''2025-11-20T09:00:00Z''),
                                       (''temperature_c'', PFloat 21), (''humidity_rh'', PNone),
                                       (''battery_percentage'', PNone)]]))]\<rparr>
        \<lparr>utcnow = \<lparr>year = 2025, month = 11, day = 20, hour = 12, minute = 0, second = 0,
                    microsecond = 0\<rparr>, today = (2025, 11, 20)\<rparr>
        \<lparr>range_arg = Some ''2h'', date_arg = None\<rparr>)
     = Inr [PDict [(''ts'', PStr ''2025-11-20T09:00:00Z''), (''temperature_c'', PFloat 21),
                   (''humidity_rh'', PNone), (''battery_percentage'', PNone)]]"
  by (simp add: get_readings_def end_time_of_def range_delta_def load_data_def
      parse_eval time_eval fs_eval)

section \<open>load\_data: records without a usable timestamp\<close>

text \<open>
  A record whose \<^verbatim>\<open>ts\<close> is a string that does not parse raises ValueError inside the
  \<^verbatim>\<open>try\<close>: it is printed and dropped, and the loop goes on with the next record.
\<close>

lemma filter_entries_drops_unparsable:
  assumes "entry_ts entry = Inl ValueError"
  shows "filter_entries start_dt end_dt (entry # rest)
         = (InvalidTimestamp entry # fst (filter_entries start_dt end_dt rest),
            snd (filter_entries start_dt end_dt rest))"
  using assms by (simp add: case_prod_unfold Let_def)

text \<open>
  Claim C9. A stored record whose timestamp cannot be parsed, a missing \<^verbatim>\<open>ts\<close> or one
  that is not a string included, is dropped while the query completes. The code does not
  do this for the two included cases: \<^verbatim>\<open>entry['ts']\<close> on a record without the key is a
  KeyError, and \<^verbatim>\<open>strptime\<close> on a \<^verbatim>\<open>ts\<close> that is null is a TypeError; the
  \<^verbatim>\<open>except ValueError\<close> catches neither, so the query fails although the segment also
  holds a valid reading in range. The query is for 2025-11-20 00:00:00 to 23:59:59.
\<close>

theorem load_data_missing_ts_raises:
  "load_data
     \<lparr>dirs = [''data''],
      files = [(''data/sensor_20251120_000000.json'',
                Json (PList [PDict [(''ts'', PStr ''2025-11-20T09:00:00Z''),
                                    (''temperature_c'', PFloat 21)],
                             PDict [(''temperature_c'', PFloat 22)]]))]\<rparr>
     \<lparr>year = 2025, month = 11, day = 20, hour = 0, minute = 0, second = 0, microsecond = 0\<rparr>
     \<lparr>year = 2025, month = 11, day = 20, hour = 23, minute = 59, second = 59, microsecond = 0\<rparr>
   = ([AddingEntry \<lparr>year = 2025, month = 11, day = 20, hour = 9, minute = 0, second = 0,
                     microsecond = 0\<rparr>], Inl KeyError)
   \<and> load_data
     \<lparr>dirs = [''data''],
      files = [(''data/sensor_20251120_000000.json'',
                Json (PList [PDict [(''ts'', PStr ''2025-11-20T09:00:00Z''),
                                    (''temperature_c'', PFloat 21)],
                             PDict [(''ts'', PNone), (''temperature_c'', PFloat 22)]]))]\<rparr>
     \<lparr>year = 2025, month = 11, day = 20, hour = 0, minute = 0, second = 0, microsecond = 0\<rparr>
     \<lparr>year = 2025, month = 11, day = 20, hour = 23, minute = 59, second = 59, microsecond = 0\<rparr>
   = ([AddingEntry \<lparr>year = 2025, month = 11, day = 20, hour = 9, minute = 0, second = 0,
                     microsecond = 0\<rparr>], Inl TypeError)"
  by (simp add: load_data_def parse_eval time_eval fs_eval)

section \<open>load\_data: the result is in range and sorted\<close>

lemma entry_ts_InrD:
  assumes "entry_ts r = Inr t"
  shows "\<exists>kvs s. r = PDict kvs \<and> map_of kvs ''ts'' = Some (PStr s) \<and> strptime_ts s = Inr t
           \<and> ts_key r = s"
  using assms
  by (auto simp: entry_ts_def ts_key_def split: pyval.splits option.splits)

lemma filter_entries_in_range:
  assumes "snd (filter_entries a b xs) = Inr res" "r \<in> set res"
  shows "r \<in> set xs \<and> (\<exists>t. entry_ts r = Inr t \<and> dt_le a t \<and> dt_le t b)"
  using assms
proof (induction xs arbitrary: res)
  case Nil
  then show ?case by simp
next
  case (Cons x xs)
  show ?case
  proof (cases "entry_ts x")
    case (Inl e)
    with Cons.prems have "e = ValueError" and "snd (filter_entries a b xs) = Inr res"
      by (auto simp: case_prod_unfold Let_def split: if_splits)
    with Cons.IH Cons.prems(2) show ?thesis by auto
  next
    case (Inr t)
    show ?thesis
    proof (cases "dt_le a t \<and> dt_le t b")
      case True
      with Inr Cons.prems(1) obtain res' where
        r': "snd (filter_entries a b xs) = Inr res'" and res: "res = x # res'"
        by (cases "snd (filter_entries a b xs)") (auto simp: case_prod_unfold Let_def)
      show ?thesis
      proof (cases "r = x")
        case True
        with Inr \<open>dt_le a t \<and> dt_le t b\<close> show ?thesis by auto
      next
        case False
        with res Cons.prems(2) have "r \<in> set res'" by simp
        with Cons.IH [OF r'] show ?thesis by auto
      qed
    next
      case False
      with Inr Cons.prems(1) have "snd (filter_entries a b xs) = Inr res" by auto
      with Cons.IH Cons.prems(2) show ?thesis by auto
    qed
  qed
qed


lemma digit_char_less_iff: "digit_char a < digit_char b \<longleftrightarrow> a mod 10 < b mod 10"
  by (simp add: less_char_def of_char_digit_char)

lemma digit_char_eq_iff: "digit_char a = digit_char b \<longleftrightarrow> a mod 10 = b mod 10"
proof
  assume "digit_char a = digit_char b"
  then have "(of_char (digit_char a) :: nat) = of_char (digit_char b)" by simp
  then show "a mod 10 = b mod 10" by (simp add: of_char_digit_char)
next
  assume "a mod 10 = b mod 10"
  then show "digit_char a = digit_char b" by (simp add: digit_char_def)
qed

lemma base_less_iff:
  fixes a b k :: nat
  assumes "0 < k"
  shows "a < b \<longleftrightarrow> a div k < b div k \<or> (a div k = b div k \<and> a mod k < b mod k)"
proof -
  have a: "a = k * (a div k) + a mod k" and b: "b = k * (b div k) + b mod k" by simp_all
  have ma: "a mod k < k" and mb: "b mod k < k" using assms by simp_all
  show ?thesis
  proof (cases "a div k < b div k")
    case True
    then have "k * Suc (a div k) \<le> k * (b div k)"
      by (intro mult_le_mono2) simp
    then have "k * (a div k) + k \<le> k * (b div k)" by simp
    with a b ma have "a < b" by linarith
    with True show ?thesis by simp
  next
    case False
    show ?thesis
    proof (cases "a div k = b div k")
      case True
      with a b show ?thesis by (metis nat_add_left_cancel_less less_irrefl)
    next
      case False
      with \<open>\<not> a div k < b div k\<close> have "b div k < a div k" by simp
      then have "k * Suc (b div k) \<le> k * (a div k)"
        by (intro mult_le_mono2) simp
      then have "k * (b div k) + k \<le> k * (a div k)" by simp
      with a b mb have "b < a" by linarith
      with False \<open>\<not> a div k < b div k\<close> show ?thesis by simp
    qed
  qed
qed

lemma base_eq_iff:
  fixes a b k :: nat
  shows "a = b \<longleftrightarrow> a div k = b div k \<and> a mod k = b mod k"
  by (metis div_mult_mod_eq)

lemma pad2_le_iff:
  assumes "a < 100" "b < 100"
  shows "pad2 a @ r1 \<le> pad2 b @ r2 \<longleftrightarrow> a < b \<or> (a = b \<and> r1 \<le> r2)"
proof -
  have "a div 10 < 10" "b div 10 < 10" using assms by simp_all
  then have m: "a div 10 mod 10 = a div 10" "b div 10 mod 10 = b div 10" by simp_all
  show ?thesis
    unfolding base_less_iff [of 10 a b, simplified] base_eq_iff [of a b 10]
    by (auto simp add: pad2_def digit_char_less_iff digit_char_eq_iff m)
qed

lemma pad4_le_iff:
  assumes "a < 10000" "b < 10000"
  shows "pad4 a @ r1 \<le> pad4 b @ r2 \<longleftrightarrow> a < b \<or> (a = b \<and> r1 \<le> r2)"
proof -
  have d: "a div 100 < 100" "b div 100 < 100" using assms by simp_all
  have m: "a mod 100 < 100" "b mod 100 < 100" by simp_all
  show ?thesis
    unfolding base_less_iff [of 100 a b, simplified] base_eq_iff [of a b 100]
    by (auto simp add: pad4_def pad2_le_iff d m)
qed


lemma isoformat_le_imp:
  assumes "valid_datetime t1" "valid_datetime t2" "microsecond t1 = 0" "microsecond t2 = 0"
    and "isoformat t1 @ ''Z'' \<le> isoformat t2 @ ''Z''"
  shows "dt_le t1 t2"
proof -
  from assms(1) have b1: "year t1 < 10000" "month t1 < 100" "day t1 < 100" "hour t1 < 100"
      "minute t1 < 100" "second t1 < 100"
    using days_in_month_le [of "year t1" "month t1"]
    by (auto simp: valid_datetime_def valid_date_def date_of_def)
  from assms(2) have b2: "year t2 < 10000" "month t2 < 100" "day t2 < 100" "hour t2 < 100"
      "minute t2 < 100" "second t2 < 100"
    using days_in_month_le [of "year t2" "month t2"]
    by (auto simp: valid_datetime_def valid_date_def date_of_def)
  from assms(5) have
    "year t1 < year t2 \<or> year t1 = year t2 \<and>
      (month t1 < month t2 \<or> month t1 = month t2 \<and>
        (day t1 < day t2 \<or> day t1 = day t2 \<and>
          (hour t1 < hour t2 \<or> hour t1 = hour t2 \<and>
            (minute t1 < minute t2 \<or> minute t1 = minute t2 \<and> second t1 \<le> second t2))))"
    using pad2_le_iff [OF b1(6) b2(6), of "''Z''" "''Z''"]
    by (simp add: isoformat_def assms(3,4) pad4_le_iff b1 b2 pad2_le_iff) auto
  then show ?thesis
    by (auto simp add: dt_le_def dt_key_def assms(3,4))
qed

lemma strptime_ts_valid:
  assumes "strptime_ts s = Inr t"
  shows "valid_datetime t \<and> microsecond t = 0"
proof -
  have "mk_datetime f = Inr t \<Longrightarrow> valid_datetime t \<and> microsecond t = 0" for f
    by (auto simp: mk_datetime_def Let_def split: prod.splits if_splits)
  with assms show ?thesis
    unfolding strptime_ts_def first_full_match_def
    by (auto split: list.splits if_splits)
qed

lemma written_form_order:
  assumes "entry_ts x = Inr tx" "entry_ts y = Inr ty"
    and "written_form (ts_key x)" "written_form (ts_key y)" "ts_key x \<le> ts_key y"
  shows "time_le x y"
proof -
  from entry_ts_InrD [OF assms(1)] have px: "strptime_ts (ts_key x) = Inr tx" by auto
  from entry_ts_InrD [OF assms(2)] have py: "strptime_ts (ts_key y) = Inr ty" by auto
  from px assms(3) have fx: "ts_key x = isoformat tx @ ''Z''" by (simp add: written_form_def)
  from py assms(4) have fy: "ts_key y = isoformat ty @ ''Z''" by (simp add: written_form_def)
  have "dt_le tx ty"
    using strptime_ts_valid [OF px] strptime_ts_valid [OF py] assms(5)
    unfolding fx fy by (intro isoformat_le_imp) simp_all
  with assms(1,2) show ?thesis by (simp add: time_le_def)
qed

lemma load_data_InrD:
  assumes "load_data s a b = (lg, Inr res)"
  shows "res = [] \<or> (\<exists>combined xs. snd (filter_entries a b combined) = Inr xs
           \<and> res = sort_key ts_key xs)"
proof -
  have m: "map_sum id f v = Inr res \<Longrightarrow> \<exists>xs. v = Inr xs \<and> res = f xs"
    for f :: "pyval list \<Rightarrow> pyval list" and v :: "py_error + pyval list"
    by (cases v) auto
  from assms show ?thesis
    unfolding load_data_def Let_def
    by (auto split: if_splits sum.splits prod.splits dest!: m) (metis snd_conv)
qed

text \<open>
  What the code does give. Whenever \<^verbatim>\<open>load_data\<close> returns, every returned record has a
  timestamp \<open>t\<close> with \<open>start \<le> t \<le> end\<close>, both ends included, and the records are in
  ascending order of their \<^verbatim>\<open>ts\<close> strings. When every returned \<^verbatim>\<open>ts\<close> has the form the
  collector writes, zero-padded \<^verbatim>\<open>YYYY-MM-DDTHH:MM:SSZ\<close>, the order of the strings is the
  order of the timestamps.
\<close>

lemma load_data_in_range_sorted:
  assumes "load_data s start_dt end_dt = (lg, Inr res)"
  shows "(\<forall>r\<in>set res. \<exists>t. entry_ts r = Inr t \<and> dt_le start_dt t \<and> dt_le t end_dt)
         \<and> sorted (map ts_key res)
         \<and> ((\<forall>r\<in>set res. written_form (ts_key r)) \<longrightarrow> sorted_wrt time_le res)"
proof -
  from load_data_InrD [OF assms] consider "res = []"
    | combined xs where "snd (filter_entries start_dt end_dt combined) = Inr xs"
        "res = sort_key ts_key xs"
    by blast
  then show ?thesis
  proof cases
    case 1
    then show ?thesis by simp
  next
    case 2
    have range: "\<exists>t. entry_ts r = Inr t \<and> dt_le start_dt t \<and> dt_le t end_dt"
      if "r \<in> set res" for r
      using filter_entries_in_range [OF 2(1), of r] that 2(2) by simp
    have srt: "sorted (map ts_key res)"
      unfolding 2(2) by (rule sorted_sort_key)
    have tm: "sorted_wrt time_le res" if w: "\<forall>r\<in>set res. written_form (ts_key r)"
    proof -
      from srt have "sorted_wrt (\<lambda>x y. ts_key x \<le> ts_key y) res"
        by (simp add: sorted_wrt_map)
      then show ?thesis
      proof (rule sorted_wrt_mono_rel [rotated])
        fix x y
        assume "x \<in> set res" "y \<in> set res" "ts_key x \<le> ts_key y"
        with range w show "time_le x y"
          by (meson written_form_order)
      qed
    qed
    from range srt tm show ?thesis by blast
  qed
qed


lemma load_data_in_range_sorted_example:
  "load_data
     \<lparr>dirs = [''data''],
      files = [(''data/sensor_20251120_095959.json'',
                Json (PList [PDict [(''ts'', PStr ''2025-11-20T10:04:00Z''),
                                    (''temperature_c'', PNone), (''humidity_rh'', PFloat 44.5)],
                             PDict [(''ts'', PStr ''2025-11-20T10:02:00Z''),
                                    (''temperature_c'', PFloat 21.1), (''humidity_rh'', PNone)],
                             PDict [(''ts'', PStr ''2025-11-20T10:00:00Z''),
                                    (''temperature_c'', PFloat 21), (''humidity_rh'', PFloat 45)]]))]\<rparr>
     \<lparr>year = 2025, month = 11, day = 20, hour = 10, minute = 1, second = 0, microsecond = 0\<rparr>
     \<lparr>year = 2025, month = 11, day = 20, hour = 10, minute = 5, second = 0, microsecond = 0\<rparr>
   = ([AddingEntry \<lparr>year = 2025, month = 11, day = 20, hour = 10, minute = 4, second = 0,
                     microsecond = 0\<rparr>,
       AddingEntry \<lparr>year = 2025, month = 11, day = 20, hour = 10, minute = 2, second = 0,
                     microsecond = 0\<rparr>],
      Inr [PDict [(''ts'', PStr ''2025-11-20T10:02:00Z''),
                  (''temperature_c'', PFloat 21.1), (''humidity_rh'', PNone)],
           PDict [(''ts'', PStr ''2025-11-20T10:04:00Z''),
                  (''temperature_c'', PNone), (''humidity_rh'', PFloat 44.5)]])
   \<and> written_form ''2025-11-20T10:02:00Z'' \<and> written_form ''2025-11-20T10:04:00Z''
   \<and> sorted_wrt time_le
        [PDict [(''ts'', PStr ''2025-11-20T10:02:00Z''),
                (''temperature_c'', PFloat 21.1), (''humidity_rh'', PNone)],
         PDict [(''ts'', PStr ''2025-11-20T10:04:00Z''),
                (''temperature_c'', PNone), (''humidity_rh'', PFloat 44.5)]]"
proof -
  let ?s = "\<lparr>dirs = [''data''],
      files = [(''data/sensor_20251120_095959.json'',
                Json (PList [PDict [(''ts'', PStr ''2025-11-20T10:04:00Z''),
                                    (''temperature_c'', PNone), (''humidity_rh'', PFloat 44.5)],
                             PDict [(''ts'', PStr ''2025-11-20T10:02:00Z''),
                                    (''temperature_c'', PFloat 21.1), (''humidity_rh'', PNone)],
                             PDict [(''ts'', PStr ''2025-11-20T10:00:00Z''),
                                    (''temperature_c'', PFloat 21), (''humidity_rh'', PFloat 45)]]))]\<rparr>"
  let ?a = "\<lparr>year = 2025, month = 11, day = 20, hour = 10, minute = 1, second = 0, microsecond = 0\<rparr>"
  let ?b = "\<lparr>year = 2025, month = 11, day = 20, hour = 10, minute = 5, second = 0, microsecond = 0\<rparr>"
  let ?lg = "[AddingEntry \<lparr>year = 2025, month = 11, day = 20, hour = 10, minute = 4, second = 0,
                     microsecond = 0\<rparr>,
       AddingEntry \<lparr>year = 2025, month = 11, day = 20, hour = 10, minute = 2, second = 0,
                     microsecond = 0\<rparr>]"
  let ?res = "[PDict [(''ts'', PStr ''2025-11-20T10:02:00Z''),
                  (''temperature_c'', PFloat 21.1), (''humidity_rh'', PNone)],
           PDict [(''ts'', PStr ''2025-11-20T10:04:00Z''),
                  (''temperature_c'', PNone), (''humidity_rh'', PFloat 44.5)]]"
  have e: "load_data ?s ?a ?b = (?lg, Inr ?res)"
    by (simp add: load_data_def parse_eval time_eval fs_eval)
  have w: "written_form ''2025-11-20T10:02:00Z''" "written_form ''2025-11-20T10:04:00Z''"
    by (simp_all add: written_form_def parse_eval format_eval)
  then have "\<forall>r\<in>set ?res. written_form (ts_key r)"
    by (simp add: ts_key_def)
  with load_data_in_range_sorted [OF e] have "sorted_wrt time_le ?res"
    by blast
  with e w show ?thesis by (intro conjI)
qed

text \<open>
  Claim C1. For every stored history and every \<open>start \<le> end\<close>, \<^verbatim>\<open>load_data\<close> returns the
  records with \<open>start \<le> ts \<le> end\<close> sorted ascending by timestamp. The code does not do
  this: the filter compares the parsed \<^verbatim>\<open>datetime\<close>, and the comment above the last step
  says \<^verbatim>\<open>Sort by timestamp\<close>, but the sort key is \<^verbatim>\<open>x['ts']\<close>, the string as stored.
  \<^verbatim>\<open>strptime\<close> accepts \<^verbatim>\<open>2025-9-01T00:00:00Z\<close> as the first of September, and as a
  string it sorts after \<^verbatim>\<open>2025-10-01T00:00:00Z\<close>. The query below is for 2025-08-31 to
  2025-10-31; both records are in range, and October is returned before September.
\<close>

theorem load_data_unpadded_not_sorted:
  "dt_le \<lparr>year = 2025, month = 8, day = 31, hour = 0, minute = 0, second = 0, microsecond = 0\<rparr>
         \<lparr>year = 2025, month = 10, day = 31, hour = 0, minute = 0, second = 0, microsecond = 0\<rparr>
   \<and> snd (load_data
     \<lparr>dirs = [''data''],
      files = [(''data/sensor_20250901_000000.json'',
                Json (PList [PDict [(''ts'', PStr ''2025-9-01T00:00:00Z''),
                                    (''temperature_c'', PFloat 20)]])),
               (''data/sensor_20251001_000000.json'',
                Json (PList [PDict [(''ts'', PStr ''2025-10-01T00:00:00Z''),
                                    (''temperature_c'', PFloat 15)]]))]\<rparr>
     \<lparr>year = 2025, month = 8, day = 31, hour = 0, minute = 0, second = 0, microsecond = 0\<rparr>
     \<lparr>year = 2025, month = 10, day = 31, hour = 0, minute = 0, second = 0, microsecond = 0\<rparr>)
   = Inr [PDict [(''ts'', PStr ''2025-10-01T00:00:00Z''), (''temperature_c'', PFloat 15)],
          PDict [(''ts'', PStr ''2025-9-01T00:00:00Z''), (''temperature_c'', PFloat 20)]]
   \<and> entry_ts (PDict [(''ts'', PStr ''2025-10-01T00:00:00Z''), (''temperature_c'', PFloat 15)])
     = Inr \<lparr>year = 2025, month = 10, day = 1, hour = 0, minute = 0, second = 0, microsecond = 0\<rparr>
   \<and> entry_ts (PDict [(''ts'', PStr ''2025-9-01T00:00:00Z''), (''temperature_c'', PFloat 20)])
     = Inr \<lparr>year = 2025, month = 9, day = 1, hour = 0, minute = 0, second = 0, microsecond = 0\<rparr>
   \<and> \<not> dt_le \<lparr>year = 2025, month = 10, day = 1, hour = 0, minute = 0, second = 0, microsecond = 0\<rparr>
            \<lparr>year = 2025, month = 9, day = 1, hour = 0, minute = 0, second = 0, microsecond = 0\<rparr>"
  by (simp add: load_data_def parse_eval time_eval fs_eval)

section \<open>load\_data: what the scatter and gather keeps\<close>

lemma load_files_keeps:
  assumes "n \<in> set names" "map_of (files s) (path_join DATA_FOLDER n) = Some (Json (PList es))"
  shows "set es \<subseteq> set (snd (load_files s names))"
  using assms(1)
proof (induction names)
  case Nil
  then show ?case by simp
next
  case (Cons x xs)
  show ?case
  proof (cases "x = n")
    case True
    with assms(2) show ?thesis
      by (simp add: case_prod_unfold iter_values_def Let_def)
  next
    case False
    with Cons have "set es \<subseteq> set (snd (load_files s xs))" by simp
    then show ?thesis
      by (auto simp: case_prod_unfold Let_def split: option.splits file_data.splits sum.splits)
  qed
qed

lemma filter_entries_keeps:
  assumes "snd (filter_entries a b xs) = Inr res" "e \<in> set xs"
    and "entry_ts e = Inr t" "dt_le a t" "dt_le t b"
  shows "e \<in> set res"
  using assms(1,2)
proof (induction xs arbitrary: res)
  case Nil
  then show ?case by simp
next
  case (Cons x xs)
  show ?case
  proof (cases "entry_ts x")
    case (Inl err)
    with Cons.prems(1) have r: "snd (filter_entries a b xs) = Inr res"
      by (auto simp: case_prod_unfold Let_def split: if_splits)
    from Inl assms(3) have "x \<noteq> e" by auto
    with Cons.prems(2) Cons.IH [OF r] show ?thesis by simp
  next
    case (Inr tx)
    show ?thesis
    proof (cases "dt_le a tx \<and> dt_le tx b")
      case True
      with Inr Cons.prems(1) obtain res' where
        r': "snd (filter_entries a b xs) = Inr res'" and res: "res = x # res'"
        by (cases "snd (filter_entries a b xs)") (auto simp: case_prod_unfold Let_def)
      with Cons.prems(2) Cons.IH [OF r'] show ?thesis by auto
    next
      case False
      with Inr Cons.prems(1) have r: "snd (filter_entries a b xs) = Inr res" by auto
      from False Inr assms(3-5) have "x \<noteq> e" by auto
      with Cons.prems(2) Cons.IH [OF r] show ?thesis by simp
    qed
  qed
qed

lemma candidates_scan:
  assumes "n \<in> set (candidates s a b)"
  shows "\<exists>lg. scan_folder s a b = Inr (lg, candidates s a b) \<and> path_exists s DATA_FOLDER"
proof (cases "scan_folder s a b")
  case (Inl e)
  with assms show ?thesis by (simp add: candidates_def)
next
  case (Inr p)
  then have sc: "scan_folder s a b = Inr (fst p, candidates s a b)"
    by (simp add: candidates_def case_prod_unfold)
  then have "DATA_FOLDER \<in> set (dirs s)"
    by (auto simp: scan_folder_def listdir_def split: if_splits)
  with sc show ?thesis by (auto simp: path_exists_def)
qed

lemma load_data_returns_entry:
  assumes "snd (load_data s a b) = Inr res" "n \<in> set (candidates s a b)"
    and "map_of (files s) (path_join DATA_FOLDER n) = Some (Json (PList es))" "e \<in> set es"
    and "entry_ts e = Inr t" "dt_le a t" "dt_le t b"
  shows "e \<in> set res"
proof -
  from candidates_scan [OF assms(2)] obtain lg where
    sc: "scan_folder s a b = Inr (lg, candidates s a b)" and ex: "path_exists s DATA_FOLDER"
    by blast
  let ?combined = "snd (load_files s (candidates s a b))"
  from assms(1) sc ex obtain xs where
    f: "snd (filter_entries a b ?combined) = Inr xs" and r: "res = sort_key ts_key xs"
    by (cases "snd (filter_entries a b ?combined)")
       (auto simp: load_data_def case_prod_unfold Let_def)
  from load_files_keeps [OF assms(2,3)] assms(4) have "e \<in> set ?combined" by auto
  from filter_entries_keeps [OF f this assms(5-7)] r show ?thesis by simp
qed


lemma map_of_write_file:
  "map_of (files (write_file s p c)) q = (if q = p then Some c else map_of (files s) q)"
  by (simp add: write_file_def update_conv')

lemma load_files_corrupt_as_empty:
  assumes "map_of (files s) p = Some Corrupt"
  shows "snd (load_files (write_file s p (Json (PList []))) names) = snd (load_files s names)"
proof (induction names)
  case Nil
  then show ?case by simp
next
  case (Cons x xs)
  show ?case
  proof (cases "path_join DATA_FOLDER x = p")
    case True
    with assms Cons show ?thesis
      by (simp add: map_of_write_file case_prod_unfold Let_def iter_values_def)
  next
    case False
    with Cons show ?thesis
      by (auto simp add: map_of_write_file case_prod_unfold Let_def
          split: option.splits file_data.splits sum.splits)
  qed
qed

lemma load_files_logs_corrupt:
  assumes "map_of (files s) (path_join DATA_FOLDER n) = Some Corrupt" "n \<in> set names"
  shows "ErrorReading n \<in> set (fst (load_files s names))"
  using assms(2)
proof (induction names)
  case Nil
  then show ?case by simp
next
  case (Cons x xs)
  show ?case
  proof (cases "x = n")
    case True
    with assms(1) show ?thesis by (simp add: case_prod_unfold Let_def)
  next
    case False
    with Cons have "ErrorReading n \<in> set (fst (load_files s xs))" by simp
    then show ?thesis
      by (auto simp: case_prod_unfold Let_def split: option.splits file_data.splits sum.splits)
  qed
qed

lemma scan_folder_write_existing:
  assumes "map_of (files s) p = Some c"
  shows "scan_folder (write_file s p c') a b = scan_folder s a b"
    and "path_exists (write_file s p c') q = path_exists s q"
proof -
  from assms have "p \<in> fst ` set (files s)"
    by (metis domI dom_map_of_conv_image_fst)
  then have k: "map fst (AList.update p c' (files s)) = map fst (files s)"
    by (simp add: update_keys)
  then show "scan_folder (write_file s p c') a b = scan_folder s a b"
    by (simp add: scan_folder_def listdir_def write_file_def)
  from k show "path_exists (write_file s p c') q = path_exists s q"
    by (simp add: path_exists_def write_file_def)
qed

text \<open>
  Claim C6. A candidate segment file that cannot be read or parsed is skipped with a
  printed warning and never makes the query fail by itself: the query returns exactly
  what it returns when that file holds an empty list instead, and whenever it returns,
  every in-range reading of every readable candidate is in the result.
\<close>

theorem load_data_skips_corrupt:
  assumes "map_of (files s) (path_join DATA_FOLDER name) = Some Corrupt"
  shows "snd (load_data s a b)
           = snd (load_data (write_file s (path_join DATA_FOLDER name) (Json (PList []))) a b)
         \<and> (name \<in> set (candidates s a b) \<longrightarrow> ErrorReading name \<in> set (fst (load_data s a b)))
         \<and> (\<forall>res n es e t.
               snd (load_data s a b) = Inr res \<and> n \<in> set (candidates s a b)
               \<and> map_of (files s) (path_join DATA_FOLDER n) = Some (Json (PList es))
               \<and> e \<in> set es \<and> entry_ts e = Inr t \<and> dt_le a t \<and> dt_le t b
               \<longrightarrow> e \<in> set res)"
proof (intro conjI impI allI)
  let ?p = "path_join DATA_FOLDER name"
  let ?s' = "write_file s ?p (Json (PList []))"
  show "snd (load_data s a b) = snd (load_data ?s' a b)"
  proof (cases "scan_folder s a b")
    case (Inl e)
    then show ?thesis
      by (simp add: load_data_def scan_folder_write_existing [OF assms])
  next
    case (Inr p)
    then show ?thesis
      using load_files_corrupt_as_empty [OF assms, of "snd p"]
      by (simp add: load_data_def scan_folder_write_existing [OF assms] case_prod_unfold Let_def)
  qed
next
  assume c: "name \<in> set (candidates s a b)"
  from candidates_scan [OF c] obtain lg where
    sc: "scan_folder s a b = Inr (lg, candidates s a b)" and ex: "path_exists s DATA_FOLDER"
    by blast
  from load_files_logs_corrupt [OF assms c] sc ex
  show "ErrorReading name \<in> set (fst (load_data s a b))"
    by (simp add: load_data_def case_prod_unfold Let_def)
next
  fix res n es e t
  assume "snd (load_data s a b) = Inr res \<and> n \<in> set (candidates s a b)
    \<and> map_of (files s) (path_join DATA_FOLDER n) = Some (Json (PList es))
    \<and> e \<in> set es \<and> entry_ts e = Inr t \<and> dt_le a t \<and> dt_le t b"
  then show "e \<in> set res"
    using load_data_returns_entry by blast
qed


theorem load_data_skips_corrupt_witness:
  "map_of (files \<lparr>dirs = [''data''],
              files = [(''data/sensor_20251119_000000.json'', Corrupt),
                       (''data/sensor_20251120_000000.json'',
                        Json (PList [PDict [(''ts'', PStr ''2025-11-20T09:00:00Z''),
                                            (''temperature_c'', PFloat 21)]]))]\<rparr>)
     (path_join DATA_FOLDER ''sensor_20251119_000000.json'') = Some Corrupt
   \<and> ''sensor_20251119_000000.json'' \<in> set (candidates
        \<lparr>dirs = [''data''],
         files = [(''data/sensor_20251119_000000.json'', Corrupt),
                  (''data/sensor_20251120_000000.json'',
                   Json (PList [PDict [(''ts'', PStr ''2025-11-20T09:00:00Z''),
                                       (''temperature_c'', PFloat 21)]]))]\<rparr>
        \<lparr>year = 2025, month = 11, day = 20, hour = 0, minute = 0, second = 0, microsecond = 0\<rparr>
        \<lparr>year = 2025, month = 11, day = 20, hour = 23, minute = 59, second = 59, microsecond = 0\<rparr>)
   \<and> load_data
        \<lparr>dirs = [''data''],
         files = [(''data/sensor_20251119_000000.json'', Corrupt),
                  (''data/sensor_20251120_000000.json'',
                   Json (PList [PDict [(''ts'', PStr ''2025-11-20T09:00:00Z''),
                                       (''temperature_c'', PFloat 21)]]))]\<rparr>
        \<lparr>year = 2025, month = 11, day = 20, hour = 0, minute = 0, second = 0, microsecond = 0\<rparr>
        \<lparr>year = 2025, month = 11, day = 20, hour = 23, minute = 59, second = 59, microsecond = 0\<rparr>
      = ([ErrorReading ''sensor_20251119_000000.json'',
          AddingEntry \<lparr>year = 2025, month = 11, day = 20, hour = 9, minute = 0, second = 0,
                        microsecond = 0\<rparr>],
         Inr [PDict [(''ts'', PStr ''2025-11-20T09:00:00Z''), (''temperature_c'', PFloat 21)]])
   \<and> snd (load_data
        (write_file
           \<lparr>dirs = [''data''],
            files = [(''data/sensor_20251119_000000.json'', Corrupt),
                     (''data/sensor_20251120_000000.json'',
                      Json (PList [PDict [(''ts'', PStr ''2025-11-20T09:00:00Z''),
                                          (''temperature_c'', PFloat 21)]]))]\<rparr>
           (path_join DATA_FOLDER ''sensor_20251119_000000.json'') (Json (PList [])))
        \<lparr>year = 2025, month = 11, day = 20, hour = 0, minute = 0, second = 0, microsecond = 0\<rparr>
        \<lparr>year = 2025, month = 11, day = 20, hour = 23, minute = 59, second = 59, microsecond = 0\<rparr>)
      = Inr [PDict [(''ts'', PStr ''2025-11-20T09:00:00Z''), (''temperature_c'', PFloat 21)]]"
proof -
  let ?s = "\<lparr>dirs = [''data''],
         files = [(''data/sensor_20251119_000000.json'', Corrupt),
                  (''data/sensor_20251120_000000.json'',
                   Json (PList [PDict [(''ts'', PStr ''2025-11-20T09:00:00Z''),
                                       (''temperature_c'', PFloat 21)]]))]\<rparr>"
  let ?a = "\<lparr>year = 2025, month = 11, day = 20, hour = 0, minute = 0, second = 0, microsecond = 0\<rparr>"
  let ?b = "\<lparr>year = 2025, month = 11, day = 20, hour = 23, minute = 59, second = 59, microsecond = 0\<rparr>"
  have c: "map_of (files ?s) (path_join DATA_FOLDER ''sensor_20251119_000000.json'') = Some Corrupt"
    by (simp add: fs_eval)
  have m: "''sensor_20251119_000000.json'' \<in> set (candidates ?s ?a ?b)"
    by (simp add: parse_eval time_eval fs_eval)
  have e: "load_data ?s ?a ?b
      = ([ErrorReading ''sensor_20251119_000000.json'',
          AddingEntry \<lparr>year = 2025, month = 11, day = 20, hour = 9, minute = 0, second = 0,
                        microsecond = 0\<rparr>],
         Inr [PDict [(''ts'', PStr ''2025-11-20T09:00:00Z''), (''temperature_c'', PFloat 21)]])"
    by (simp add: load_data_def parse_eval time_eval fs_eval)
  from load_data_skips_corrupt [OF c, of ?a ?b]
  have "snd (load_data (write_file ?s (path_join DATA_FOLDER ''sensor_20251119_000000.json'')
                (Json (PList []))) ?a ?b) = snd (load_data ?s ?a ?b)"
    by simp
  with e have "snd (load_data (write_file ?s (path_join DATA_FOLDER ''sensor_20251119_000000.json'')
                (Json (PList []))) ?a ?b)
      = Inr [PDict [(''ts'', PStr ''2025-11-20T09:00:00Z''), (''temperature_c'', PFloat 21)]]"
    by simp
  with c m e show ?thesis by (intro conjI)
qed

section \<open>The naming scheme and the candidate files\<close>

lemma json_path_of_segment_name: "json_path_of cs = path_join DATA_FOLDER (segment_name cs)"
  by (simp add: json_path_of_def segment_name_def path_join_def DATA_FOLDER_def)

lemma split_on_append:
  assumes "c \<notin> set xs"
  shows "split_on c (xs @ c # ys) = xs # split_on c ys"
  using assms by (induction xs) auto

lemma pad2_no_sep [simp]: "CHR ''_'' \<notin> set (pad2 n)" "CHR ''/'' \<notin> set (pad2 n)"
  by (simp_all add: pad2_def eq_commute)

lemma pad4_no_sep [simp]: "CHR ''_'' \<notin> set (pad4 n)" "CHR ''/'' \<notin> set (pad4 n)"
  by (simp_all add: pad4_def)

lemma length_pad [simp]: "length (pad2 n) = 2" "length (pad4 n) = 4"
  by (simp_all add: pad2_def pad4_def)

lemma strptime_ymd_pad:
  assumes "valid_date (y, m, d)"
  shows "strptime_ymd (pad4 y @ pad2 m @ pad2 d)
         = Inr \<lparr>year = y, month = m, day = d, hour = 0, minute = 0, second = 0, microsecond = 0\<rparr>"
proof -
  from assms have y: "y < 10000" and m: "1 \<le> m" "m \<le> 12" and d: "1 \<le> d" "d \<le> 31"
    using days_in_month_le [of y m] by (auto simp: valid_date_def)
  have k: "mk_datetime (y, m, d, 0, 0, 0)
      = Inr \<lparr>year = y, month = m, day = d, hour = 0, minute = 0, second = 0, microsecond = 0\<rparr>"
    using assms by (simp add: mk_datetime_def valid_datetime_def date_of_def)
  have "re_d (pad2 d) = (d, []) # (if 10 \<le> d then [(d div 10, [digit_char d])] else [])"
    using re_d_pad2 [OF d, of "[]"] by simp
  then show ?thesis
    by (simp add: strptime_ymd_def first_full_match_def re_Y_pad4 [OF y] re_m_pad2 [OF m] k)
qed

lemma file_date_segment_name:
  assumes "valid_datetime cs"
  shows "file_date (segment_name cs) = Inr (date_of cs)"
proof -
  define ymd where "ymd = pad4 (year cs) @ pad2 (month cs) @ pad2 (day cs)"
  define rest where "rest = pad2 (hour cs) @ pad2 (minute cs) @ pad2 (second cs) @ ''.json''"
  have v: "valid_date (year cs, month cs, day cs)"
    using assms by (simp add: valid_datetime_def date_of_def)
  have n: "segment_name cs = ''sensor'' @ CHR ''_'' # (ymd @ CHR ''_'' # rest)"
    by (simp add: segment_name_def strftime_stamp_def ymd_def rest_def)
  have s1: "split_on CHR ''_'' (''sensor'' @ CHR ''_'' # (ymd @ CHR ''_'' # rest))
      = ''sensor'' # split_on CHR ''_'' (ymd @ CHR ''_'' # rest)"
    by (rule split_on_append) simp
  have s2: "split_on CHR ''_'' (ymd @ CHR ''_'' # rest) = ymd # split_on CHR ''_'' rest"
    by (rule split_on_append) (simp add: ymd_def)
  have p: "strptime_ymd ymd = Inr \<lparr>year = year cs, month = month cs, day = day cs, hour = 0,
      minute = 0, second = 0, microsecond = 0\<rparr>"
    unfolding ymd_def by (rule strptime_ymd_pad [OF v])
  show ?thesis
    unfolding file_date_def n s1 s2 by (simp add: p date_of_def)
qed

lemma segment_name_affixes:
  "startswith (segment_name cs) ''sensor_''" "endswith (segment_name cs) ''.json''"
  by (simp_all add: segment_name_def startswith_def endswith_def strftime_stamp_def)

lemma relevant_files_iff:
  "n \<in> set (snd (relevant_files lo hi names)) \<longleftrightarrow>
     n \<in> set names \<and> startswith n ''sensor_'' \<and> endswith n ''.json''
     \<and> (\<exists>d. file_date n = Inr d \<and> lo \<le> d \<and> d \<le> hi)"
proof (induction names)
  case Nil
  then show ?case by simp
next
  case (Cons x xs)
  then show ?case
    by (auto simp: case_prod_unfold Let_def split: sum.splits)
qed


lemma dt_minus_one_day:
  assumes "dt_minus a 1 0 = Inr before"
  shows "date_of before = prev_day (date_of a)"
  using assms
  by (auto simp: dt_minus_def Let_def date_of_def split: if_splits prod.splits)

lemma prev_day_le:
  assumes "valid_date d"
  shows "prev_day d \<le> d"
  using assms
  by (cases d) (auto simp: prev_day_def valid_date_def)

lemma date_of_mono:
  assumes "dt_le a b"
  shows "date_of a \<le> date_of b"
  using assms by (auto simp: dt_le_def dt_key_def date_of_def)

lemma months:
  fixes m :: nat
  assumes "2 \<le> m" "m \<le> 12"
  shows "m \<in> {2, 3, 4, 5, 6, 7, 8, 9, 10, 11, 12}"
proof -
  from assms have "m \<in> {2..<13}" by simp
  then have "m \<in> set [2..<13]" by (simp only: atLeastLessThan_upt)
  then show ?thesis by simp
qed

lemma leap_int:
  fixes y :: nat
  shows "is_leap y \<longleftrightarrow> int y mod 4 = 0 \<and> (int y mod 100 \<noteq> 0 \<or> int y mod 400 = 0)"
proof -
  have "int (y mod 4) = int y mod 4" "int (y mod 100) = int y mod 100"
    "int (y mod 400) = int y mod 400"
    by (simp_all add: zmod_int)
  then show ?thesis
    unfolding is_leap_def by (metis of_nat_0 of_nat_eq_iff)
qed
lemma div_succ:
  fixes p k :: int
  assumes "1 < k"
  shows "(p + 1) div k = p div k + (if (p + 1) mod k = 0 then 1 else 0)"
proof -
  define q where "q = p div k"
  define r where "r = p mod k"
  have p: "p = k * q + r" by (simp add: q_def r_def)
  have r: "0 \<le> r" "r < k" using assms by (simp_all add: r_def)
  show ?thesis
  proof (cases "r + 1 = k")
    case True
    with p have e: "p + 1 = k * (q + 1) + 0" by (simp add: algebra_simps)
    have "(p + 1) div k = q + 1"
      by (rule int_div_pos_eq [OF e]) (use assms in simp_all)
    moreover have "(p + 1) mod k = 0"
      by (rule int_mod_pos_eq [OF e]) (use assms in simp_all)
    ultimately show ?thesis by (simp add: q_def)
  next
    case False
    with r have l: "r + 1 < k" by simp
    from p have e: "p + 1 = k * q + (r + 1)" by simp
    have "(p + 1) div k = q"
      by (rule int_div_pos_eq [OF e]) (use r l in simp_all)
    moreover have "(p + 1) mod k = r + 1"
      by (rule int_mod_pos_eq [OF e]) (use r l in simp_all)
    ultimately show ?thesis using r by (simp add: q_def)
  qed
qed


lemma days_before_year_step:
  assumes "2 \<le> y"
  shows "days_before_year (y - 1) + 365 + (if is_leap (y - 1) then 1 else 0) = days_before_year y"
proof -
  define p where "p = int y - 2"
  have p: "int (y - 1) - 1 = p" "int y - 1 = p + 1" "int (y - 1) = p + 1"
    using assms by (simp_all add: p_def)
  define a where "a = ((p + 1) mod 4 = 0)"
  define b where "b = ((p + 1) mod 100 = 0)"
  define c where "c = ((p + 1) mod 400 = 0)"
  have l: "is_leap (y - 1) \<longleftrightarrow> a \<and> (\<not> b \<or> c)"
    unfolding leap_int p(3) a_def b_def c_def ..
  have cb: "c \<Longrightarrow> b"
    unfolding b_def c_def mod_eq_0_iff_dvd
    by (rule dvd_trans [of 100 400]) simp_all
  have ba: "b \<Longrightarrow> a"
    unfolding a_def b_def mod_eq_0_iff_dvd
    by (rule dvd_trans [of 4 100]) simp_all
  have d: "(p + 1) div 4 = p div 4 + (if a then 1 else 0)"
    "(p + 1) div 100 = p div 100 + (if b then 1 else 0)"
    "(p + 1) div 400 = p div 400 + (if c then 1 else 0)"
    unfolding a_def b_def c_def by (rule div_succ, simp)+
  have "p * 365 + p div 4 - p div 100 + p div 400 + 365 + (if a \<and> (\<not> b \<or> c) then 1 else 0)
      = (p + 1) * 365 + (p + 1) div 4 - (p + 1) div 100 + (p + 1) div 400"
    unfolding d using cb ba by (cases a; cases b; cases c; simp add: algebra_simps)
  then show ?thesis
    unfolding days_before_year_def Let_def p l by simp
qed

lemma days_before_month_step:
  assumes "2 \<le> m" "m \<le> 12"
  shows "days_before_month y (m - 1) + int (days_in_month y (m - 1)) = days_before_month y m"
  using months [OF assms]
  by (auto simp: days_before_month_def days_in_month_def)

lemma ymd2ord_prev_day:
  assumes "valid_date d" "d \<noteq> (1, 1, 1)"
  shows "ymd2ord (prev_day d) = ymd2ord d - 1"
proof -
  obtain y m dd where d: "d = (y, m, dd)" by (cases d)
  show ?thesis
  proof (cases "1 < dd")
    case True
    then show ?thesis by (simp add: d prev_day_def ymd2ord_def)
  next
    case False
    with assms(1) have dd: "dd = 1" by (simp add: d valid_date_def)
    show ?thesis
    proof (cases "1 < m")
      case True
      with assms(1) have "2 \<le> m" "m \<le> 12" by (simp_all add: d valid_date_def)
      from days_before_month_step [OF this, of y] True show ?thesis
        by (simp add: d dd prev_day_def ymd2ord_def)
    next
      case False
      with assms(1) have m: "m = 1" by (simp add: d valid_date_def)
      with assms(2) dd d assms(1) have "2 \<le> y" by (auto simp: valid_date_def)
      from days_before_year_step [OF this] show ?thesis
        by (simp add: d dd m prev_day_def ymd2ord_def days_before_month_def)
    qed
  qed
qed


lemma candidates_eq:
  assumes "listdir s DATA_FOLDER = Inr all_files" "dt_minus start_dt 1 0 = Inr before"
  shows "candidates s start_dt end_dt
         = snd (relevant_files (prev_day (date_of start_dt)) (date_of end_dt) (sort all_files))"
  using assms dt_minus_one_day [OF assms(2)]
  by (simp add: candidates_def scan_folder_def case_prod_unfold)

text \<open>
  Claim C3. In a query over (start, end) the candidates are exactly the files of the data
  folder named \<^verbatim>\<open>sensor_*.json\<close> whose encoded day lies between the day before
  \<open>start\<close>'s date and \<open>end\<close>'s date, both included; for a file named by the naming
  scheme the encoded day is the day of the instant it was created at. Every candidate
  that can be read is loaded. In particular a segment created on the day before
  \<open>start\<close>'s date is a candidate, and its readings in range are returned whenever the
  query returns. The day before is \<open>prev_day\<close>: its ordinal is one less.
\<close>

theorem candidates_window:
  assumes "listdir s DATA_FOLDER = Inr all_files" "dt_minus start_dt 1 0 = Inr before"
    and "valid_datetime start_dt"
  shows "(\<forall>n. n \<in> set (candidates s start_dt end_dt) \<longleftrightarrow>
              n \<in> set all_files \<and> startswith n ''sensor_'' \<and> endswith n ''.json''
              \<and> (\<exists>d. file_date n = Inr d \<and> prev_day (date_of start_dt) \<le> d
                       \<and> d \<le> date_of end_dt))
         \<and> (\<forall>cs. valid_datetime cs \<and> 1000 \<le> year cs \<longrightarrow>
              (segment_name cs \<in> set (candidates s start_dt end_dt) \<longleftrightarrow>
                 segment_name cs \<in> set all_files
                 \<and> prev_day (date_of start_dt) \<le> date_of cs \<and> date_of cs \<le> date_of end_dt))
         \<and> (\<forall>n es. n \<in> set (candidates s start_dt end_dt)
                \<and> map_of (files s) (path_join DATA_FOLDER n) = Some (Json (PList es))
              \<longrightarrow> set es \<subseteq> set (snd (load_files s (candidates s start_dt end_dt))))
         \<and> (\<forall>cs res es e t.
              valid_datetime cs \<and> 1000 \<le> year cs \<and> segment_name cs \<in> set all_files
              \<and> date_of cs = prev_day (date_of start_dt) \<and> dt_le start_dt end_dt
              \<and> snd (load_data s start_dt end_dt) = Inr res
              \<and> map_of (files s) (path_join DATA_FOLDER (segment_name cs)) = Some (Json (PList es))
              \<and> e \<in> set es \<and> entry_ts e = Inr t \<and> dt_le start_dt t \<and> dt_le t end_dt
              \<longrightarrow> segment_name cs \<in> set (candidates s start_dt end_dt) \<and> e \<in> set res)
         \<and> ymd2ord (prev_day (date_of start_dt)) = ymd2ord (date_of start_dt) - 1"
proof -
  let ?lo = "prev_day (date_of start_dt)"
  let ?hi = "date_of end_dt"
  let ?c = "candidates s start_dt end_dt"
  have c: "?c = snd (relevant_files ?lo ?hi (sort all_files))"
    by (rule candidates_eq [OF assms(1,2)])
  have general: "n \<in> set ?c \<longleftrightarrow>
      n \<in> set all_files \<and> startswith n ''sensor_'' \<and> endswith n ''.json''
      \<and> (\<exists>d. file_date n = Inr d \<and> ?lo \<le> d \<and> d \<le> ?hi)" for n
    unfolding c relevant_files_iff by simp
  have named: "segment_name cs \<in> set ?c \<longleftrightarrow>
      segment_name cs \<in> set all_files \<and> ?lo \<le> date_of cs \<and> date_of cs \<le> ?hi"
    if "valid_datetime cs" for cs
    unfolding general
    by (simp add: file_date_segment_name [OF that] segment_name_affixes)
  have loaded: "set es \<subseteq> set (snd (load_files s ?c))"
    if "n \<in> set ?c" "map_of (files s) (path_join DATA_FOLDER n) = Some (Json (PList es))"
    for n es
    using that by (rule load_files_keeps)
  have vs: "valid_date (date_of start_dt)"
    using assms(3) by (simp add: valid_datetime_def)
  have previous: "segment_name cs \<in> set ?c \<and> e \<in> set res"
    if "valid_datetime cs" "segment_name cs \<in> set all_files" "date_of cs = ?lo"
      "dt_le start_dt end_dt" "snd (load_data s start_dt end_dt) = Inr res"
      "map_of (files s) (path_join DATA_FOLDER (segment_name cs)) = Some (Json (PList es))"
      "e \<in> set es" "entry_ts e = Inr t" "dt_le start_dt t" "dt_le t end_dt"
    for cs res es e t
  proof -
    have "?lo \<le> date_of start_dt" by (rule prev_day_le [OF vs])
    also have "\<dots> \<le> ?hi" by (rule date_of_mono [OF that(4)])
    finally have "date_of cs \<le> ?hi" using that(3) by simp
    with that(2,3) have m: "segment_name cs \<in> set ?c"
      by (simp add: named [OF that(1)])
    from load_data_returns_entry [OF that(5) m that(6-10)] m show ?thesis by simp
  qed
  have "date_of start_dt \<noteq> (1, 1, 1)"
    using assms(2) by (auto simp: dt_minus_def Let_def split: if_splits)
  then have ord: "ymd2ord ?lo = ymd2ord (date_of start_dt) - 1"
    by (rule ymd2ord_prev_day [OF vs])
  from general named loaded previous ord show ?thesis
    by (intro conjI allI impI) blast+
qed


theorem candidates_window_witness:
  "listdir \<lparr>dirs = [''data''],
            files = [(''data/sensor_20251119_235000.json'',
                      Json (PList [PDict [(''ts'', PStr ''2025-11-20T00:10:00Z''),
                                          (''temperature_c'', PFloat 19)]])),
                     (''data/sensor_20251118_000000.json'', Json (PList []))]\<rparr> DATA_FOLDER
     = Inr [''sensor_20251119_235000.json'', ''sensor_20251118_000000.json'']
   \<and> dt_minus \<lparr>year = 2025, month = 11, day = 20, hour = 0, minute = 0, second = 0,
                 microsecond = 0\<rparr> 1 0
     = Inr \<lparr>year = 2025, month = 11, day = 19, hour = 0, minute = 0, second = 0, microsecond = 0\<rparr>
   \<and> valid_datetime \<lparr>year = 2025, month = 11, day = 20, hour = 0, minute = 0, second = 0,
                       microsecond = 0\<rparr>
   \<and> segment_name \<lparr>year = 2025, month = 11, day = 19, hour = 23, minute = 50, second = 0,
                     microsecond = 0\<rparr> = ''sensor_20251119_235000.json''
   \<and> ''sensor_20251119_235000.json'' \<in> set (candidates
        \<lparr>dirs = [''data''],
         files = [(''data/sensor_20251119_235000.json'',
                   Json (PList [PDict [(''ts'', PStr ''2025-11-20T00:10:00Z''),
                                       (''temperature_c'', PFloat 19)]])),
                  (''data/sensor_20251118_000000.json'', Json (PList []))]\<rparr>
        \<lparr>year = 2025, month = 11, day = 20, hour = 0, minute = 0, second = 0, microsecond = 0\<rparr>
        \<lparr>year = 2025, month = 11, day = 20, hour = 6, minute = 0, second = 0, microsecond = 0\<rparr>)
   \<and> ''sensor_20251118_000000.json'' \<notin> set (candidates
        \<lparr>dirs = [''data''],
         files = [(''data/sensor_20251119_235000.json'',
                   Json (PList [PDict [(''ts'', PStr ''2025-11-20T00:10:00Z''),
                                       (''temperature_c'', PFloat 19)]])),
                  (''data/sensor_20251118_000000.json'', Json (PList []))]\<rparr>
        \<lparr>year = 2025, month = 11, day = 20, hour = 0, minute = 0, second = 0, microsecond = 0\<rparr>
        \<lparr>year = 2025, month = 11, day = 20, hour = 6, minute = 0, second = 0, microsecond = 0\<rparr>)
   \<and> ymd2ord (2025, 11, 19) = ymd2ord (2025, 11, 20) - 1"
proof -
  let ?s = "\<lparr>dirs = [''data''],
         files = [(''data/sensor_20251119_235000.json'',
                   Json (PList [PDict [(''ts'', PStr ''2025-11-20T00:10:00Z''),
                                       (''temperature_c'', PFloat 19)]])),
                  (''data/sensor_20251118_000000.json'', Json (PList []))]\<rparr>"
  let ?a = "\<lparr>year = 2025, month = 11, day = 20, hour = 0, minute = 0, second = 0, microsecond = 0\<rparr>"
  let ?b = "\<lparr>year = 2025, month = 11, day = 20, hour = 6, minute = 0, second = 0, microsecond = 0\<rparr>"
  let ?cs = "\<lparr>year = 2025, month = 11, day = 19, hour = 23, minute = 50, second = 0,
              microsecond = 0\<rparr>"
  have l: "listdir ?s DATA_FOLDER
      = Inr [''sensor_20251119_235000.json'', ''sensor_20251118_000000.json'']"
    by (simp add: fs_eval)
  have d: "dt_minus ?a 1 0
      = Inr \<lparr>year = 2025, month = 11, day = 19, hour = 0, minute = 0, second = 0, microsecond = 0\<rparr>"
    by (simp add: time_eval date_of_def)
  have v: "valid_datetime ?a" "valid_datetime ?cs"
    by (simp_all add: valid_datetime_def valid_date_def date_of_def days_in_month_def)
  have n: "segment_name ?cs = ''sensor_20251119_235000.json''"
    by (simp add: segment_name_def format_eval)
  have p: "prev_day (date_of ?a) = (2025, 11, 19)"
    by (simp add: prev_day_def date_of_def)
  note t = candidates_window [OF l d v(1), of ?b]
  have y: "1000 \<le> year ?cs" by simp
  from t [THEN conjunct2, THEN conjunct1, rule_format, of ?cs, OF conjI [OF v(2) y]]
  have "segment_name ?cs \<in> set (candidates ?s ?a ?b) \<longleftrightarrow>
      segment_name ?cs \<in> set [''sensor_20251119_235000.json'', ''sensor_20251118_000000.json'']
      \<and> prev_day (date_of ?a) \<le> date_of ?cs \<and> date_of ?cs \<le> date_of ?b" .
  then have m1: "''sensor_20251119_235000.json'' \<in> set (candidates ?s ?a ?b)"
    unfolding n p by (simp add: date_of_def)
  have f: "file_date ''sensor_20251118_000000.json'' = Inr (2025, 11, 18)"
    by (simp add: file_date_def parse_eval)
  from t [THEN conjunct1, rule_format, of "''sensor_20251118_000000.json''"]
  have "''sensor_20251118_000000.json'' \<in> set (candidates ?s ?a ?b) \<longleftrightarrow>
      ''sensor_20251118_000000.json'' \<in> set [''sensor_20251119_235000.json'', ''sensor_20251118_000000.json'']
      \<and> startswith ''sensor_20251118_000000.json'' ''sensor_''
      \<and> endswith ''sensor_20251118_000000.json'' ''.json''
      \<and> (\<exists>d. file_date ''sensor_20251118_000000.json'' = Inr d
             \<and> prev_day (date_of ?a) \<le> d \<and> d \<le> date_of ?b)" .
  then have m2: "''sensor_20251118_000000.json'' \<notin> set (candidates ?s ?a ?b)"
    unfolding p f by simp
  from t have "ymd2ord (prev_day (date_of ?a)) = ymd2ord (date_of ?a) - 1" by (elim conjE)
  then have o: "ymd2ord (2025, 11, 19) = ymd2ord (2025, 11, 20) - 1"
    unfolding p by (simp add: date_of_def)
  from l d v(1) n m1 m2 o show ?thesis by (intro conjI)
qed

section \<open>main\_loop: rotation\<close>

lemmas float_eval = total_seconds_def true_div_def nearest_double_def round_half_even_def
  scale_up.simps scale_down.simps total_microseconds_def ymd2ord_def days_before_year_def
  days_before_month_def date_of_def seconds_of_day_def is_leap_def Let_def

lemmas collector_eval = tick_def find_sensor_def read_sensor_values_def try_float_def py_opt_def
  append_reading_def load_payload_def atomic_write_json_def makedirs_def mkstemp_def
  write_file_def remove_file_def rename_def shutil_move_def finally_remove_def dirname_def
  basename_def json_path_of_def png_path_of_def should_rotate_def plot_day_def truthy_def

lemma append_reading_log:
  "fst (append_reading names s path reading) = []
   \<or> fst (append_reading names s path reading) = [FailedReadExisting]"
  by (auto simp: append_reading_def load_payload_def case_prod_unfold Let_def
      split: option.splits file_data.splits pyval.splits)

lemma plot_day_log:
  "set (fst (plot_day s rendered jf pf))
     \<subseteq> {NoDataFile jf, FailedLoadForPlot, DataFileEmpty jf, Rendering jf pf}"
  by (auto simp: plot_day_def split: option.splits file_data.splits sum.splits)

text \<open>The two parts of an iteration with a sensor: the reading, and the rotation.\<close>

lemma tick_shape:
  assumes "(case sensor st of None \<Rightarrow> find_sensor (hub_first inp) (sensor_name cfg)
            | Some s \<Rightarrow> Some s) = Some s1"
  shows "\<exists>ev1 st1 pl raised.
       set ev1 \<subseteq> {FailedReadExisting, FailedReadAppend} \<union> range Appended
     \<and> cycle_start st1 = cycle_start st \<and> json_path st1 = json_path st
     \<and> set pl \<subseteq> {NoDataFile (json_path st), FailedLoadForPlot, DataFileEmpty (json_path st),
                    Rendering (json_path st) (png_path_of (cycle_start st))}
     \<and> (\<not> store_plots cfg \<longrightarrow> raised = None)
     \<and> tick cfg inp st =
         (if should_rotate cfg (now inp) (cycle_start st)
          then (case raised of
                  Some e \<Rightarrow>
                    (ev1 @ CycleComplete (png_path_of (cycle_start st))
                       # (if store_plots cfg
                          then PlotDay (json_path st) (png_path_of (cycle_start st)) # pl else []),
                     st1, Some e)
                | None \<Rightarrow>
                    (ev1 @ CycleComplete (png_path_of (cycle_start st))
                       # (if store_plots cfg
                          then PlotDay (json_path st) (png_path_of (cycle_start st)) # pl else [])
                       @ [NewCycle (json_path_of (rotate_time inp)), Sleep (interval_seconds cfg)],
                     st1\<lparr>cycle_start := rotate_time inp,
                         json_path := json_path_of (rotate_time inp)\<rparr>, None))
          else (ev1 @ [Sleep (interval_seconds cfg)], st1, None))"
proof -
  define s2 where "s2 = (case find_sensor (hub_second inp) (sensor_name cfg) of
                       None \<Rightarrow> s1 | Some s \<Rightarrow> s)"
  define reading where "reading = read_sensor_values (read_time inp) s2"
  define r where "r = append_reading (tmp_names inp) (disk st) (json_path st) reading"
  define ev1 where "ev1 = fst r @ (case snd (snd r) of None \<Rightarrow> [Appended reading]
                                    | Some e \<Rightarrow> [FailedReadAppend])"
  define st1 where "st1 = st\<lparr>sensor := Some s2, disk := last (fst (snd r))\<rparr>"
  define p where "p = plot_day (disk st1) (render inp) (json_path st) (png_path_of (cycle_start st))"
  define raised where "raised = (if store_plots cfg then snd p else None)"
  have "set (fst r) \<subseteq> {FailedReadExisting}"
    using append_reading_log [of "tmp_names inp" "disk st" "json_path st" reading]
    by (auto simp: r_def)
  then have e: "set ev1 \<subseteq> {FailedReadExisting, FailedReadAppend} \<union> range Appended"
    by (auto simp: ev1_def split: option.splits)
  have c: "cycle_start st1 = cycle_start st" "json_path st1 = json_path st"
    by (simp_all add: st1_def)
  have l: "set (fst p) \<subseteq> {NoDataFile (json_path st), FailedLoadForPlot,
      DataFileEmpty (json_path st), Rendering (json_path st) (png_path_of (cycle_start st))}"
    unfolding p_def by (rule plot_day_log)
  have n: "\<not> store_plots cfg \<longrightarrow> raised = None"
    by (simp add: raised_def)
  have t: "tick cfg inp st =
         (if should_rotate cfg (now inp) (cycle_start st)
          then (case raised of
                  Some e \<Rightarrow>
                    (ev1 @ CycleComplete (png_path_of (cycle_start st))
                       # (if store_plots cfg
                          then PlotDay (json_path st) (png_path_of (cycle_start st)) # fst p
                          else []),
                     st1, Some e)
                | None \<Rightarrow>
                    (ev1 @ CycleComplete (png_path_of (cycle_start st))
                       # (if store_plots cfg
                          then PlotDay (json_path st) (png_path_of (cycle_start st)) # fst p
                          else [])
                       @ [NewCycle (json_path_of (rotate_time inp)), Sleep (interval_seconds cfg)],
                     st1\<lparr>cycle_start := rotate_time inp,
                         json_path := json_path_of (rotate_time inp)\<rparr>, None))
          else (ev1 @ [Sleep (interval_seconds cfg)], st1, None))"
    unfolding tick_def assms raised_def p_def st1_def ev1_def r_def reading_def s2_def
    by (simp add: Let_def case_prod_unfold split: option.splits)
  from e c l n t show ?thesis by blast
qed


text \<open>
  Claim C5, as amended. In a tick that a sensor is available in (held from an earlier
  tick or found now) and that no exception leaves, the rotation happens exactly when
  \<^verbatim>\<open>(now - cycle_start).total_seconds() >= seconds_per_cycle\<close>, \<open>now\<close> being the clock
  read at the top of the iteration and the left side the float that Python computes; in
  a tick in which no sensor is found nothing but the warning and the sleep happens. On
  rotation the path of the segment that just closed goes to \<^verbatim>\<open>plot_day\<close> exactly when
  \<^verbatim>\<open>store_plots\<close> is set, the new \<open>cycle_start\<close> is a fresh reading of the clock,
  taken at the rotation, and the new \<open>json_path\<close> is the name the naming scheme gives
  that new \<open>cycle_start\<close>. Without a rotation both stay as they are and nothing is
  handed off. An exception can leave a tick only from \<^verbatim>\<open>plot_day\<close>, that is when the
  rotation is due and \<^verbatim>\<open>store_plots\<close> is set.
\<close>

theorem tick_rotation:
  "((sensor st \<noteq> None \<or> find_sensor (hub_first inp) (sensor_name cfg) \<noteq> None)
      \<and> snd (snd (tick cfg inp st)) = None \<longrightarrow>
      ((\<exists>p. NewCycle p \<in> set (fst (tick cfg inp st))) \<longleftrightarrow>
         real_of_int (seconds_per_cycle cfg) \<le> total_seconds (now inp) (cycle_start st))
      \<and> (real_of_int (seconds_per_cycle cfg) \<le> total_seconds (now inp) (cycle_start st) \<longrightarrow>
           cycle_start (fst (snd (tick cfg inp st))) = rotate_time inp
           \<and> json_path (fst (snd (tick cfg inp st))) = json_path_of (rotate_time inp)
           \<and> NewCycle (json_path_of (rotate_time inp)) \<in> set (fst (tick cfg inp st))
           \<and> (PlotDay (json_path st) (png_path_of (cycle_start st))
                  \<in> set (fst (tick cfg inp st)) \<longleftrightarrow> store_plots cfg))
      \<and> (\<not> real_of_int (seconds_per_cycle cfg) \<le> total_seconds (now inp) (cycle_start st) \<longrightarrow>
           cycle_start (fst (snd (tick cfg inp st))) = cycle_start st
           \<and> json_path (fst (snd (tick cfg inp st))) = json_path st
           \<and> (\<forall>j p. PlotDay j p \<notin> set (fst (tick cfg inp st)))))
   \<and> (sensor st = None \<and> find_sensor (hub_first inp) (sensor_name cfg) = None \<longrightarrow>
        tick cfg inp st = ([SensorNotFound, Sleep (interval_seconds cfg)], st, None))
   \<and> (snd (snd (tick cfg inp st)) \<noteq> None \<longrightarrow>
        real_of_int (seconds_per_cycle cfg) \<le> total_seconds (now inp) (cycle_start st)
        \<and> store_plots cfg)"
proof -
  let ?due = "real_of_int (seconds_per_cycle cfg) \<le> total_seconds (now inp) (cycle_start st)"
  let ?t = "tick cfg inp st"
  have r: "should_rotate cfg (now inp) (cycle_start st) \<longleftrightarrow> ?due"
    by (simp add: should_rotate_def)
  have none: "?t = ([SensorNotFound, Sleep (interval_seconds cfg)], st, None)"
    if "sensor st = None \<and> find_sensor (hub_first inp) (sensor_name cfg) = None"
    using that by (simp add: tick_def)
  have some: "((\<exists>p. NewCycle p \<in> set (fst ?t)) \<longleftrightarrow> ?due)
      \<and> (?due \<longrightarrow>
           cycle_start (fst (snd ?t)) = rotate_time inp
           \<and> json_path (fst (snd ?t)) = json_path_of (rotate_time inp)
           \<and> NewCycle (json_path_of (rotate_time inp)) \<in> set (fst ?t)
           \<and> (PlotDay (json_path st) (png_path_of (cycle_start st)) \<in> set (fst ?t)
                \<longleftrightarrow> store_plots cfg))
      \<and> (\<not> ?due \<longrightarrow>
           cycle_start (fst (snd ?t)) = cycle_start st
           \<and> json_path (fst (snd ?t)) = json_path st
           \<and> (\<forall>j p. PlotDay j p \<notin> set (fst ?t)))"
    if a: "sensor st \<noteq> None \<or> find_sensor (hub_first inp) (sensor_name cfg) \<noteq> None"
      and ok: "snd (snd ?t) = None"
  proof -
    from a obtain s1 where "(case sensor st of
        None \<Rightarrow> find_sensor (hub_first inp) (sensor_name cfg) | Some s \<Rightarrow> Some s) = Some s1"
      by (cases "sensor st") auto
    from tick_shape [OF this] obtain ev1 st1 pl raised where
      e: "set ev1 \<subseteq> {FailedReadExisting, FailedReadAppend} \<union> range Appended"
      and c: "cycle_start st1 = cycle_start st" "json_path st1 = json_path st"
      and l: "set pl \<subseteq> {NoDataFile (json_path st), FailedLoadForPlot,
                DataFileEmpty (json_path st),
                Rendering (json_path st) (png_path_of (cycle_start st))}"
      and t: "?t =
         (if should_rotate cfg (now inp) (cycle_start st)
          then (case raised of
                  Some e \<Rightarrow>
                    (ev1 @ CycleComplete (png_path_of (cycle_start st))
                       # (if store_plots cfg
                          then PlotDay (json_path st) (png_path_of (cycle_start st)) # pl else []),
                     st1, Some e)
                | None \<Rightarrow>
                    (ev1 @ CycleComplete (png_path_of (cycle_start st))
                       # (if store_plots cfg
                          then PlotDay (json_path st) (png_path_of (cycle_start st)) # pl else [])
                       @ [NewCycle (json_path_of (rotate_time inp)), Sleep (interval_seconds cfg)],
                     st1\<lparr>cycle_start := rotate_time inp,
                         json_path := json_path_of (rotate_time inp)\<rparr>, None))
          else (ev1 @ [Sleep (interval_seconds cfg)], st1, None))"
      by blast
    have n1: "NewCycle p \<notin> set ev1" "PlotDay q p \<notin> set ev1" for q p
      using e by auto
    have n2: "NewCycle p \<notin> set pl" "PlotDay q p \<notin> set pl" for q p
      using l by auto
    show ?thesis
    proof (cases ?due)
      case False
      with t r have "?t = (ev1 @ [Sleep (interval_seconds cfg)], st1, None)" by simp
      with False c n1 show ?thesis by simp
    next
      case True
      with t r ok have rn: "raised = None"
        by (cases raised) simp_all
      with t r True have "?t =
          (ev1 @ CycleComplete (png_path_of (cycle_start st))
             # (if store_plots cfg
                then PlotDay (json_path st) (png_path_of (cycle_start st)) # pl else [])
             @ [NewCycle (json_path_of (rotate_time inp)), Sleep (interval_seconds cfg)],
           st1\<lparr>cycle_start := rotate_time inp, json_path := json_path_of (rotate_time inp)\<rparr>,
           None)"
        by simp
      with True n1 n2 show ?thesis by auto
    qed
  qed
  have raises: "?due \<and> store_plots cfg" if x: "snd (snd ?t) \<noteq> None"
  proof (cases "sensor st = None \<and> find_sensor (hub_first inp) (sensor_name cfg) = None")
    case True
    from none [OF True] x show ?thesis by simp
  next
    case False
    then obtain s1 where "(case sensor st of
        None \<Rightarrow> find_sensor (hub_first inp) (sensor_name cfg) | Some s \<Rightarrow> Some s) = Some s1"
      by (cases "sensor st") auto
    from tick_shape [OF this] obtain ev1 st1 pl raised where
      n: "\<not> store_plots cfg \<longrightarrow> raised = None"
      and t: "?t =
         (if should_rotate cfg (now inp) (cycle_start st)
          then (case raised of
                  Some e \<Rightarrow>
                    (ev1 @ CycleComplete (png_path_of (cycle_start st))
                       # (if store_plots cfg
                          then PlotDay (json_path st) (png_path_of (cycle_start st)) # pl else []),
                     st1, Some e)
                | None \<Rightarrow>
                    (ev1 @ CycleComplete (png_path_of (cycle_start st))
                       # (if store_plots cfg
                          then PlotDay (json_path st) (png_path_of (cycle_start st)) # pl else [])
                       @ [NewCycle (json_path_of (rotate_time inp)), Sleep (interval_seconds cfg)],
                     st1\<lparr>cycle_start := rotate_time inp,
                         json_path := json_path_of (rotate_time inp)\<rparr>, None))
          else (ev1 @ [Sleep (interval_seconds cfg)], st1, None))"
      by blast
    from t x r have d: ?due
      by (cases "should_rotate cfg (now inp) (cycle_start st)") simp_all
    with t x r have "raised \<noteq> None"
      by (cases raised) simp_all
    with n d show ?thesis by blast
  qed
  from none some raises show ?thesis by blast
qed


theorem tick_rotation_witness:
  "3600 \<le> total_seconds
         \<lparr>year = 2025, month = 11, day = 20, hour = 10, minute = 0, second = 5, microsecond = 0\<rparr>
         \<lparr>year = 2025, month = 11, day = 20, hour = 9, minute = 0, second = 0, microsecond = 0\<rparr>
   \<and> snd (snd (tick
        \<lparr>sensor_name = ''Schlafzimmersensor'', interval_seconds = 600, seconds_per_cycle = 3600,
         store_plots = True\<rparr>
        \<lparr>now = \<lparr>year = 2025, month = 11, day = 20, hour = 10, minute = 0, second = 5,
                 microsecond = 0\<rparr>,
         hub_first = None, hub_second = None,
         read_time = \<lparr>year = 2025, month = 11, day = 20, hour = 10, minute = 0, second = 6,
                       microsecond = 250000\<rparr>,
         rotate_time = \<lparr>year = 2025, month = 11, day = 20, hour = 10, minute = 0, second = 7,
                         microsecond = 0\<rparr>,
         tmp_names = [''k3x9_q2a''], render = None\<rparr>
        \<lparr>cycle_start = \<lparr>year = 2025, month = 11, day = 20, hour = 9, minute = 0, second = 0,
                         microsecond = 0\<rparr>,
         json_path = ''data/sensor_20251120_090000.json'',
         sensor = Some \<lparr>attributes = None\<rparr>,
         disk = \<lparr>dirs = [''data''], files = []\<rparr>\<rparr>)) = None
   \<and> cycle_start (fst (snd (tick
        \<lparr>sensor_name = ''Schlafzimmersensor'', interval_seconds = 600, seconds_per_cycle = 3600,
         store_plots = True\<rparr>
        \<lparr>now = \<lparr>year = 2025, month = 11, day = 20, hour = 10, minute = 0, second = 5,
                 microsecond = 0\<rparr>,
         hub_first = None, hub_second = None,
         read_time = \<lparr>year = 2025, month = 11, day = 20, hour = 10, minute = 0, second = 6,
                       microsecond = 250000\<rparr>,
         rotate_time = \<lparr>year = 2025, month = 11, day = 20, hour = 10, minute = 0, second = 7,
                         microsecond = 0\<rparr>,
         tmp_names = [''k3x9_q2a''], render = None\<rparr>
        \<lparr>cycle_start = \<lparr>year = 2025, month = 11, day = 20, hour = 9, minute = 0, second = 0,
                         microsecond = 0\<rparr>,
         json_path = ''data/sensor_20251120_090000.json'',
         sensor = Some \<lparr>attributes = None\<rparr>,
         disk = \<lparr>dirs = [''data''], files = []\<rparr>\<rparr>)))
     = \<lparr>year = 2025, month = 11, day = 20, hour = 10, minute = 0, second = 7, microsecond = 0\<rparr>
   \<and> PlotDay ''data/sensor_20251120_090000.json'' ''plots/sensor_20251120_090000.png''
     \<in> set (fst (tick
        \<lparr>sensor_name = ''Schlafzimmersensor'', interval_seconds = 600, seconds_per_cycle = 3600,
         store_plots = True\<rparr>
        \<lparr>now = \<lparr>year = 2025, month = 11, day = 20, hour = 10, minute = 0, second = 5,
                 microsecond = 0\<rparr>,
         hub_first = None, hub_second = None,
         read_time = \<lparr>year = 2025, month = 11, day = 20, hour = 10, minute = 0, second = 6,
                       microsecond = 250000\<rparr>,
         rotate_time = \<lparr>year = 2025, month = 11, day = 20, hour = 10, minute = 0, second = 7,
                         microsecond = 0\<rparr>,
         tmp_names = [''k3x9_q2a''], render = None\<rparr>
        \<lparr>cycle_start = \<lparr>year = 2025, month = 11, day = 20, hour = 9, minute = 0, second = 0,
                         microsecond = 0\<rparr>,
         json_path = ''data/sensor_20251120_090000.json'',
         sensor = Some \<lparr>attributes = None\<rparr>,
         disk = \<lparr>dirs = [''data''], files = []\<rparr>\<rparr>))"
proof -
  let ?cfg = "\<lparr>sensor_name = ''Schlafzimmersensor'', interval_seconds = 600, seconds_per_cycle = 3600,
         store_plots = True\<rparr>"
  let ?inp = "\<lparr>now = \<lparr>year = 2025, month = 11, day = 20, hour = 10, minute = 0, second = 5,
                 microsecond = 0\<rparr>,
         hub_first = None, hub_second = None,
         read_time = \<lparr>year = 2025, month = 11, day = 20, hour = 10, minute = 0, second = 6,
                       microsecond = 250000\<rparr>,
         rotate_time = \<lparr>year = 2025, month = 11, day = 20, hour = 10, minute = 0, second = 7,
                         microsecond = 0\<rparr>,
         tmp_names = [''k3x9_q2a''], render = None\<rparr>"
  let ?st = "\<lparr>cycle_start = \<lparr>year = 2025, month = 11, day = 20, hour = 9, minute = 0, second = 0,
                         microsecond = 0\<rparr>,
         json_path = ''data/sensor_20251120_090000.json'',
         sensor = Some \<lparr>attributes = None\<rparr>,
         disk = \<lparr>dirs = [''data''], files = []\<rparr>\<rparr>"
  have d: "real_of_int (seconds_per_cycle ?cfg) \<le> total_seconds (now ?inp) (cycle_start ?st)"
    by (simp add: float_eval)
  have s: "(sensor ?st \<noteq> None \<or> find_sensor (hub_first ?inp) (sensor_name ?cfg) \<noteq> None)
      \<and> snd (snd (tick ?cfg ?inp ?st)) = None"
    by (simp add: collector_eval float_eval format_eval fs_eval)
  have g: "png_path_of (cycle_start ?st) = ''plots/sensor_20251120_090000.png''"
    by (simp add: png_path_of_def format_eval)
  note t = tick_rotation [of ?st ?inp ?cfg, THEN conjunct1, rule_format, OF s,
      THEN conjunct2, THEN conjunct1, rule_format, OF d]
  from t have c: "cycle_start (fst (snd (tick ?cfg ?inp ?st))) = rotate_time ?inp" by (elim conjE)
  from t have "PlotDay (json_path ?st) (png_path_of (cycle_start ?st))
      \<in> set (fst (tick ?cfg ?inp ?st)) \<longleftrightarrow> store_plots ?cfg" by (elim conjE)
  then have p: "PlotDay ''data/sensor_20251120_090000.json'' ''plots/sensor_20251120_090000.png''
      \<in> set (fst (tick ?cfg ?inp ?st))"
    unfolding g by simp
  from d have d': "3600 \<le> total_seconds (now ?inp) (cycle_start ?st)" by simp
  from s have s': "snd (snd (tick ?cfg ?inp ?st)) = None" by (elim conjE)
  from d' s' c p show ?thesis by simp
qed

text \<open>
  The claim as stated fails in four places. In the first tick below the rotation is
  due at \<open>now\<close> = 10:00:05, \<^verbatim>\<open>store_plots\<close> has its default False and the clock gives
  10:00:07 when the rotation reads it: nothing is handed off, and the new
  \<open>cycle_start\<close> is 10:00:07 and not \<open>now\<close>, so the new segment is
  \<^verbatim>\<open>sensor_20251120_100007.json\<close>. In the second tick the rotation is due as well, but
  no sensor is found, and the \<^verbatim>\<open>continue\<close> skips the rotation. In the third tick
  \<^verbatim>\<open>store_plots\<close> is set and the segment file holds the JSON number 5: the append fails
  and is logged, the rotation is due, \<^verbatim>\<open>plot_day\<close> iterates over the number and the
  \<^verbatim>\<open>TypeError\<close> leaves the loop before \<open>cycle_start\<close> and \<open>json_path\<close> are reset.
\<close>

theorem tick_rotation_fresh_clock:
  "tick \<lparr>sensor_name = ''Schlafzimmersensor'', interval_seconds = 600, seconds_per_cycle = 3600,
         store_plots = False\<rparr>
        \<lparr>now = \<lparr>year = 2025, month = 11, day = 20, hour = 10, minute = 0, second = 5,
                 microsecond = 0\<rparr>,
         hub_first = None, hub_second = None,
         read_time = \<lparr>year = 2025, month = 11, day = 20, hour = 10, minute = 0, second = 6,
                       microsecond = 250000\<rparr>,
         rotate_time = \<lparr>year = 2025, month = 11, day = 20, hour = 10, minute = 0, second = 7,
                         microsecond = 0\<rparr>,
         tmp_names = [''k3x9_q2a''], render = None\<rparr>
        \<lparr>cycle_start = \<lparr>year = 2025, month = 11, day = 20, hour = 9, minute = 0, second = 0,
                         microsecond = 0\<rparr>,
         json_path = ''data/sensor_20251120_090000.json'',
         sensor = Some \<lparr>attributes = None\<rparr>,
         disk = \<lparr>dirs = [''data''], files = []\<rparr>\<rparr>
   = ([Appended (PDict [(''ts'', PStr ''2025-11-20T10:00:06Z''), (''temperature_c'', PNone),
                        (''humidity_rh'', PNone), (''battery_percentage'', PNone)]),
       CycleComplete ''plots/sensor_20251120_090000.png'',
       NewCycle ''data/sensor_20251120_100007.json'',
       Sleep 600],
      \<lparr>cycle_start = \<lparr>year = 2025, month = 11, day = 20, hour = 10, minute = 0, second = 7,
                        microsecond = 0\<rparr>,
       json_path = ''data/sensor_20251120_100007.json'',
       sensor = Some \<lparr>attributes = None\<rparr>,
       disk = \<lparr>dirs = [''data''],
               files = [(''data/sensor_20251120_090000.json'',
                         Json (PList [PDict [(''ts'', PStr ''2025-11-20T10:00:06Z''),
                                             (''temperature_c'', PNone), (''humidity_rh'', PNone),
                                             (''battery_percentage'', PNone)]]))]\<rparr>\<rparr>,
      None)
   \<and> 3600 \<le> total_seconds
         \<lparr>year = 2025, month = 11, day = 20, hour = 10, minute = 0, second = 5, microsecond = 0\<rparr>
         \<lparr>year = 2025, month = 11, day = 20, hour = 9, minute = 0, second = 0, microsecond = 0\<rparr>
   \<and> tick \<lparr>sensor_name = ''Schlafzimmersensor'', interval_seconds = 600, seconds_per_cycle = 3600,
         store_plots = False\<rparr>
        \<lparr>now = \<lparr>year = 2025, month = 11, day = 20, hour = 10, minute = 0, second = 5,
                 microsecond = 0\<rparr>,
         hub_first = None, hub_second = None,
         read_time = \<lparr>year = 2025, month = 11, day = 20, hour = 10, minute = 0, second = 6,
                       microsecond = 250000\<rparr>,
         rotate_time = \<lparr>year = 2025, month = 11, day = 20, hour = 10, minute = 0, second = 7,
                         microsecond = 0\<rparr>,
         tmp_names = [''k3x9_q2a''], render = None\<rparr>
        \<lparr>cycle_start = \<lparr>year = 2025, month = 11, day = 20, hour = 9, minute = 0, second = 0,
                         microsecond = 0\<rparr>,
         json_path = ''data/sensor_20251120_090000.json'',
         sensor = None,
         disk = \<lparr>dirs = [''data''], files = []\<rparr>\<rparr>
     = ([SensorNotFound, Sleep 600],
        \<lparr>cycle_start = \<lparr>year = 2025, month = 11, day = 20, hour = 9, minute = 0, second = 0,
                         microsecond = 0\<rparr>,
         json_path = ''data/sensor_20251120_090000.json'',
         sensor = None,
         disk = \<lparr>dirs = [''data''], files = []\<rparr>\<rparr>,
        None)
   \<and> tick \<lparr>sensor_name = ''Schlafzimmersensor'', interval_seconds = 600, seconds_per_cycle = 3600,
         store_plots = True\<rparr>
        \<lparr>now = \<lparr>year = 2025, month = 11, day = 20, hour = 10, minute = 0, second = 5,
                 microsecond = 0\<rparr>,
         hub_first = None, hub_second = None,
         read_time = \<lparr>year = 2025, month = 11, day = 20, hour = 10, minute = 0, second = 6,
                       microsecond = 250000\<rparr>,
         rotate_time = \<lparr>year = 2025, month = 11, day = 20, hour = 10, minute = 0, second = 7,
                         microsecond = 0\<rparr>,
         tmp_names = [''k3x9_q2a''], render = None\<rparr>
        \<lparr>cycle_start = \<lparr>year = 2025, month = 11, day = 20, hour = 9, minute = 0, second = 0,
                         microsecond = 0\<rparr>,
         json_path = ''data/sensor_20251120_090000.json'',
         sensor = Some \<lparr>attributes = None\<rparr>,
         disk = \<lparr>dirs = [''data''], files = [(''data/sensor_20251120_090000.json'', Json (PInt 5))]\<rparr>\<rparr>
     = ([FailedReadAppend,
         CycleComplete ''plots/sensor_20251120_090000.png'',
         PlotDay ''data/sensor_20251120_090000.json'' ''plots/sensor_20251120_090000.png''],
        \<lparr>cycle_start = \<lparr>year = 2025, month = 11, day = 20, hour = 9, minute = 0, second = 0,
                         microsecond = 0\<rparr>,
         json_path = ''data/sensor_20251120_090000.json'',
         sensor = Some \<lparr>attributes = None\<rparr>,
         disk = \<lparr>dirs = [''data''], files = [(''data/sensor_20251120_090000.json'', Json (PInt 5))]\<rparr>\<rparr>,
        Some TypeError)"
  by (simp add: collector_eval float_eval format_eval fs_eval)

section \<open>atomic\_write\_json and append\_reading\<close>

lemma data_path:
  assumes "CHR ''/'' \<notin> set name"
  shows "path_join DATA_FOLDER name = ''data/'' @ name"
    and "dirname (''data/'' @ name) = ''data''"
proof -
  from assms have "take 1 name \<noteq> ''/''"
    by (cases name) auto
  then show "path_join DATA_FOLDER name = ''data/'' @ name"
    by (simp add: path_join_def DATA_FOLDER_def)
  have "dropWhile (\<lambda>c. c \<noteq> CHR ''/'') (rev name @ ''/atad'') = ''/atad''"
    using assms by (subst dropWhile_append2) auto
  then show "dirname (''data/'' @ name) = ''data''"
    by (simp add: dirname_def)
qed

lemma tmp_path:
  "path_join ''data'' (''.tmp_json_'' @ n) = ''data/.tmp_json_'' @ n"
  by (simp add: path_join_def)

lemma tmp_path_differs:
  assumes "\<not> startswith name ''.tmp_json_''"
  shows "''data/.tmp_json_'' @ n \<noteq> ''data/'' @ name"
  using assms by (auto simp: startswith_def)

lemma map_of_rename:
  assumes "map_of (files s) src = Some c" "src \<noteq> dst"
  shows "map_of (files (rename s src dst)) q
         = (if q = dst then Some c else if q = src then None else map_of (files s) q)"
  using assms by (simp add: rename_def update_conv' delete_conv')

lemma mkstemp_cases:
  "(mkstemp s d pre names = Inl FileExistsError
      \<and> (\<forall>n\<in>set names. path_exists s (path_join d (pre @ n))))
   \<or> (\<exists>n. n \<in> set names \<and> \<not> path_exists s (path_join d (pre @ n))
         \<and> mkstemp s d pre names
            = Inr (path_join d (pre @ n),
                   s\<lparr>files := AList.update (path_join d (pre @ n)) Corrupt (files s)\<rparr>))"
proof (cases "filter (\<lambda>n. \<not> path_exists s (path_join d (pre @ n))) names")
  case Nil
  then show ?thesis by (simp add: mkstemp_def filter_empty_conv)
next
  case (Cons n ns)
  then have "n \<in> set (filter (\<lambda>n. \<not> path_exists s (path_join d (pre @ n))) names)" by simp
  then have "n \<in> set names" "\<not> path_exists s (path_join d (pre @ n))" by simp_all
  with Cons show ?thesis by (auto simp: mkstemp_def Let_def)
qed

lemma makedirs_cases:
  "(makedirs s d = Inl FileExistsError \<and> d \<notin> set (dirs s))
   \<or> (\<exists>s1. makedirs s d = Inr s1 \<and> files s1 = files s \<and> set (dirs s1) = insert d (set (dirs s)))"
  by (auto simp: makedirs_def)


lemma dirs_unchanged [simp]:
  "dirs (rename s a b) = dirs s" "dirs (write_file s p c) = dirs s"
  "dirs (remove_file s p) = dirs s"
  by (simp_all add: rename_def write_file_def remove_file_def split: option.splits)

lemma path_exists_iff:
  "path_exists s p \<longleftrightarrow> p \<in> set (dirs s) \<or> map_of (files s) p \<noteq> None"
  by (simp add: path_exists_def map_of_eq_None_iff)

lemma atomic_write_json_shape:
  assumes "CHR ''/'' \<notin> set name" "\<not> startswith name ''.tmp_json_''"
    and "path = ''data/'' @ name" "path \<notin> set (dirs s)"
  shows "(\<exists>e. atomic_write_json names s path data = ([s], Some e)
             \<and> ''data'' \<notin> set (dirs s))
       \<or> (\<exists>e s1. atomic_write_json names s path data = ([s, s1], Some e) \<and> files s1 = files s
             \<and> (\<forall>n\<in>set names. path_exists s (''data/.tmp_json_'' @ n)))
       \<or> (\<exists>n s1. n \<in> set names \<and> files s1 = files s
             \<and> set (dirs s1) = insert ''data'' (set (dirs s))
             \<and> \<not> path_exists s1 (''data/.tmp_json_'' @ n)
             \<and> atomic_write_json names s path data =
                 ([s, s1,
                   s1\<lparr>files := AList.update (''data/.tmp_json_'' @ n) Corrupt (files s1)\<rparr>,
                   write_file
                     (s1\<lparr>files := AList.update (''data/.tmp_json_'' @ n) Corrupt (files s1)\<rparr>)
                     (''data/.tmp_json_'' @ n) (Json data),
                   rename
                     (write_file
                        (s1\<lparr>files := AList.update (''data/.tmp_json_'' @ n) Corrupt (files s1)\<rparr>)
                        (''data/.tmp_json_'' @ n) (Json data))
                     (''data/.tmp_json_'' @ n) path,
                   rename
                     (write_file
                        (s1\<lparr>files := AList.update (''data/.tmp_json_'' @ n) Corrupt (files s1)\<rparr>)
                        (''data/.tmp_json_'' @ n) (Json data))
                     (''data/.tmp_json_'' @ n) path],
                  None))"
proof -
  have dn: "dirname path = ''data''"
    unfolding assms(3) by (rule data_path(2) [OF assms(1)])
  from makedirs_cases [of s "''data''"] show ?thesis
  proof (elim disjE exE conjE)
    assume "makedirs s ''data'' = Inl FileExistsError" "''data'' \<notin> set (dirs s)"
    then show ?thesis by (simp add: atomic_write_json_def dn)
  next
    fix s1
    assume m: "makedirs s ''data'' = Inr s1" and f: "files s1 = files s"
      and d: "set (dirs s1) = insert ''data'' (set (dirs s))"
    from mkstemp_cases [of s1 "''data''" "''.tmp_json_''" names] show ?thesis
    proof (elim disjE exE conjE)
      assume k: "mkstemp s1 ''data'' ''.tmp_json_'' names = Inl FileExistsError"
        and a: "\<forall>n\<in>set names. path_exists s1 (path_join ''data'' (''.tmp_json_'' @ n))"
      have "path_exists s (''data/.tmp_json_'' @ n)" if "n \<in> set names" for n
      proof -
        from a that have "path_exists s1 (''data/.tmp_json_'' @ n)"
          unfolding tmp_path by blast
        then show ?thesis
          using f d by (auto simp: path_exists_def)
      qed
      with m f k show ?thesis by (simp add: atomic_write_json_def dn)
    next
      fix n
      let ?tmp = "''data/.tmp_json_'' @ n"
      let ?s2 = "s1\<lparr>files := AList.update ?tmp Corrupt (files s1)\<rparr>"
      let ?s3 = "write_file ?s2 ?tmp (Json data)"
      let ?s4 = "rename ?s3 ?tmp path"
      assume n: "n \<in> set names"
        and fresh: "\<not> path_exists s1 (path_join ''data'' (''.tmp_json_'' @ n))"
        and k: "mkstemp s1 ''data'' ''.tmp_json_'' names
                = Inr (path_join ''data'' (''.tmp_json_'' @ n),
                       s1\<lparr>files := AList.update (path_join ''data'' (''.tmp_json_'' @ n))
                                     Corrupt (files s1)\<rparr>)"
      have fresh': "\<not> path_exists s1 ?tmp"
        using fresh unfolding tmp_path .
      have k': "mkstemp s1 ''data'' ''.tmp_json_'' names = Inr (?tmp, ?s2)"
        using k unfolding tmp_path .
      have ne: "?tmp \<noteq> path"
        unfolding assms(3) by (rule tmp_path_differs [OF assms(2)])
      have pd: "path \<notin> set (dirs ?s3)"
        using assms(3,4) d by auto
      then have mv: "shutil_move ?s3 ?tmp path = Inr ?s4"
        by (simp add: shutil_move_def)
      have t3: "map_of (files ?s3) ?tmp = Some (Json data)"
        by (simp add: write_file_def update_conv')
      have "map_of (files ?s4) ?tmp = None"
        using map_of_rename [OF t3 ne, of ?tmp] ne by simp
      moreover have "?tmp \<notin> set (dirs ?s4)"
        using fresh' by (simp add: path_exists_def)
      ultimately have "\<not> path_exists ?s4 ?tmp"
        by (simp add: path_exists_iff)
      then have fin: "finally_remove ?s4 ?tmp = ?s4"
        by (simp add: finally_remove_def)
      have "atomic_write_json names s path data = ([s, s1, ?s2, ?s3, ?s4, ?s4], None)"
        unfolding atomic_write_json_def dn Let_def
        using m k' mv fin by simp
      with n f d fresh' show ?thesis
        by blast
    qed
  qed
qed


lemma atomic_write_json_segment:
  assumes "CHR ''/'' \<notin> set name" "\<not> startswith name ''.tmp_json_''"
    and "path = ''data/'' @ name" "path \<notin> set (dirs s)"
    and "atomic_write_json names s path data = (states, err)"
  shows "hd states = s"
    and "err \<noteq> None \<Longrightarrow> \<forall>st\<in>set states. map_of (files st) path = map_of (files s) path"
    and "err = None \<Longrightarrow>
           \<exists>n pre post. n \<in> set names \<and> states = pre @ post \<and> pre \<noteq> [] \<and> post \<noteq> []
             \<and> (\<forall>st\<in>set pre. map_of (files st) path = map_of (files s) path)
             \<and> (\<forall>st\<in>set post. map_of (files st) path = Some (Json data))
             \<and> map_of (files (last pre)) (''data/.tmp_json_'' @ n) = Some (Json data)
             \<and> hd post = rename (last pre) (''data/.tmp_json_'' @ n) path
             \<and> ''data'' \<in> set (dirs (last states))"
proof -
  note sh = atomic_write_json_shape [OF assms(1-4), of names data]
  from sh assms(5) show "hd states = s" by auto
  from sh assms(5) show "\<forall>st\<in>set states. map_of (files st) path = map_of (files s) path"
    if "err \<noteq> None"
    using that by auto
  show "\<exists>n pre post. n \<in> set names \<and> states = pre @ post \<and> pre \<noteq> [] \<and> post \<noteq> []
             \<and> (\<forall>st\<in>set pre. map_of (files st) path = map_of (files s) path)
             \<and> (\<forall>st\<in>set post. map_of (files st) path = Some (Json data))
             \<and> map_of (files (last pre)) (''data/.tmp_json_'' @ n) = Some (Json data)
             \<and> hd post = rename (last pre) (''data/.tmp_json_'' @ n) path
             \<and> ''data'' \<in> set (dirs (last states))"
    if "err = None"
  proof -
    from sh assms(5) that obtain n s1 where n: "n \<in> set names" and f: "files s1 = files s"
      and d: "set (dirs s1) = insert ''data'' (set (dirs s))"
      and st: "states =
           [s, s1,
            s1\<lparr>files := AList.update (''data/.tmp_json_'' @ n) Corrupt (files s1)\<rparr>,
            write_file
              (s1\<lparr>files := AList.update (''data/.tmp_json_'' @ n) Corrupt (files s1)\<rparr>)
              (''data/.tmp_json_'' @ n) (Json data),
            rename
              (write_file
                 (s1\<lparr>files := AList.update (''data/.tmp_json_'' @ n) Corrupt (files s1)\<rparr>)
                 (''data/.tmp_json_'' @ n) (Json data))
              (''data/.tmp_json_'' @ n) path,
            rename
              (write_file
                 (s1\<lparr>files := AList.update (''data/.tmp_json_'' @ n) Corrupt (files s1)\<rparr>)
                 (''data/.tmp_json_'' @ n) (Json data))
              (''data/.tmp_json_'' @ n) path]"
      by auto
    let ?tmp = "''data/.tmp_json_'' @ n"
    let ?s2 = "s1\<lparr>files := AList.update ?tmp Corrupt (files s1)\<rparr>"
    let ?s3 = "write_file ?s2 ?tmp (Json data)"
    let ?s4 = "rename ?s3 ?tmp path"
    have ne: "?tmp \<noteq> path"
      unfolding assms(3) by (rule tmp_path_differs [OF assms(2)])
    have t3: "map_of (files ?s3) ?tmp = Some (Json data)"
      by (simp add: write_file_def update_conv')
    have p2: "map_of (files ?s2) path = map_of (files s) path"
      using ne f by (simp add: update_conv')
    have p3: "map_of (files ?s3) path = map_of (files s) path"
      using ne f by (simp add: write_file_def update_conv')
    have p4: "map_of (files ?s4) path = Some (Json data)"
      using map_of_rename [OF t3 ne, of path] by simp
    have d4: "''data'' \<in> set (dirs ?s4)"
      using d by simp
    have "states = [s, s1, ?s2, ?s3] @ [?s4, ?s4]"
      using st by simp
    moreover have "\<forall>st\<in>set [s, s1, ?s2, ?s3]. map_of (files st) path = map_of (files s) path"
      using f p2 p3 by simp
    moreover have "\<forall>st\<in>set [?s4, ?s4]. map_of (files st) path = Some (Json data)"
      using p4 by simp
    moreover have "map_of (files (last [s, s1, ?s2, ?s3])) ?tmp = Some (Json data)"
      using t3 by simp
    moreover have "hd [?s4, ?s4] = rename (last [s, s1, ?s2, ?s3]) ?tmp path"
      by simp
    moreover have "''data'' \<in> set (dirs (last states))"
      using d4 st by simp
    ultimately show ?thesis
      using n by blast
  qed
qed


lemma atomic_write_json_succeeds:
  assumes "CHR ''/'' \<notin> set name" "\<not> startswith name ''.tmp_json_''"
    and "path = ''data/'' @ name" "path \<notin> set (dirs s)"
    and "''data'' \<in> set (dirs s)" "\<exists>n\<in>set names. \<not> path_exists s (''data/.tmp_json_'' @ n)"
  shows "snd (atomic_write_json names s path data) = None"
  using atomic_write_json_shape [OF assms(1-4), of names data] assms(5,6)
  by auto

lemma load_payload_cases:
  "load_payload s path = ([], PList []) \<and> \<not> path_exists s path
   \<or> (\<exists>v. load_payload s path = ([], v) \<and> map_of (files s) path = Some (Json v))
   \<or> load_payload s path = ([FailedReadExisting], PList []) \<and> path_exists s path
       \<and> map_of (files s) path \<noteq> Some (Json (snd (load_payload s path)))"
  by (auto simp: load_payload_def split: option.splits file_data.splits)



text \<open>
  Claim C4. When the segment file is there and cannot be parsed, \<^verbatim>\<open>append_reading\<close>
  does not fail: it logs the problem, takes the prior history to be empty, and leaves
  the new reading as the only element of the rewritten segment. The data folder exists,
  since the file is in it, and \<^verbatim>\<open>mkstemp\<close> finds a free temporary name.
\<close>

theorem append_reading_corrupt:
  assumes "CHR ''/'' \<notin> set name" "\<not> startswith name ''.tmp_json_''"
    and "path = path_join DATA_FOLDER name" "path \<notin> set (dirs s)"
    and "map_of (files s) path = Some Corrupt"
    and "DATA_FOLDER \<in> set (dirs s)"
    and "\<exists>n\<in>set names. \<not> path_exists s (path_join DATA_FOLDER (''.tmp_json_'' @ n))"
  shows "\<exists>states. append_reading names s path reading = ([FailedReadExisting], states, None)
           \<and> hd states = s
           \<and> map_of (files (last states)) path = Some (Json (PList [reading]))"
proof -
  have p: "path = ''data/'' @ name"
    unfolding assms(3) by (rule data_path(1) [OF assms(1)])
  have d: "''data'' \<in> set (dirs s)"
    using assms(6) by (simp add: DATA_FOLDER_def)
  have f: "\<exists>n\<in>set names. \<not> path_exists s (''data/.tmp_json_'' @ n)"
    using assms(7) unfolding DATA_FOLDER_def tmp_path .
  from assms(5) have "path_exists s path"
    by (simp add: path_exists_iff)
  with assms(5) have lp: "load_payload s path = ([FailedReadExisting], PList [])"
    by (simp add: load_payload_def)
  obtain states err where a: "atomic_write_json names s path (PList [reading]) = (states, err)"
    by (cases "atomic_write_json names s path (PList [reading])")
  from atomic_write_json_succeeds [OF assms(1,2) p assms(4) d f, of "PList [reading]"] a
  have e: "err = None" by simp
  from atomic_write_json_segment(3) [OF assms(1,2) p assms(4) a e]
  obtain pre post where "states = pre @ post" "post \<noteq> []"
    and "\<forall>st\<in>set post. map_of (files st) path = Some (Json (PList [reading]))"
    by blast
  then have l: "map_of (files (last states)) path = Some (Json (PList [reading]))"
    by simp
  have "append_reading names s path reading = ([FailedReadExisting], states, None)"
    using a e by (simp add: append_reading_def lp Let_def)
  with l atomic_write_json_segment(1) [OF assms(1,2) p assms(4) a] show ?thesis by blast
qed

theorem append_reading_corrupt_witness:
  "CHR ''/'' \<notin> set ''sensor_20251120_090000.json''
   \<and> \<not> startswith ''sensor_20251120_090000.json'' ''.tmp_json_''
   \<and> ''data/sensor_20251120_090000.json'' = path_join DATA_FOLDER ''sensor_20251120_090000.json''
   \<and> map_of (files \<lparr>dirs = [''data''],
                      files = [(''data/sensor_20251120_090000.json'', Corrupt)]\<rparr>)
         ''data/sensor_20251120_090000.json'' = Some Corrupt
   \<and> \<not> path_exists \<lparr>dirs = [''data''],
                       files = [(''data/sensor_20251120_090000.json'', Corrupt)]\<rparr>
           (path_join DATA_FOLDER (''.tmp_json_'' @ ''k3x9_q2a''))
   \<and> fst (append_reading [''k3x9_q2a'']
        \<lparr>dirs = [''data''], files = [(''data/sensor_20251120_090000.json'', Corrupt)]\<rparr>
        ''data/sensor_20251120_090000.json''
        (PDict [(''ts'', PStr ''2025-11-20T09:10:00Z''), (''temperature_c'', PNone)]))
     = [FailedReadExisting]
   \<and> snd (snd (append_reading [''k3x9_q2a'']
        \<lparr>dirs = [''data''], files = [(''data/sensor_20251120_090000.json'', Corrupt)]\<rparr>
        ''data/sensor_20251120_090000.json''
        (PDict [(''ts'', PStr ''2025-11-20T09:10:00Z''), (''temperature_c'', PNone)]))) = None
   \<and> map_of (files (last (fst (snd (append_reading [''k3x9_q2a'']
        \<lparr>dirs = [''data''], files = [(''data/sensor_20251120_090000.json'', Corrupt)]\<rparr>
        ''data/sensor_20251120_090000.json''
        (PDict [(''ts'', PStr ''2025-11-20T09:10:00Z''), (''temperature_c'', PNone)]))))))
       ''data/sensor_20251120_090000.json''
     = Some (Json (PList [PDict [(''ts'', PStr ''2025-11-20T09:10:00Z''),
                                 (''temperature_c'', PNone)]]))"
proof -
  let ?n = "''sensor_20251120_090000.json''"
  let ?p = "''data/sensor_20251120_090000.json''"
  let ?s = "\<lparr>dirs = [''data''], files = [(''data/sensor_20251120_090000.json'', Corrupt)]\<rparr>"
  let ?r = "PDict [(''ts'', PStr ''2025-11-20T09:10:00Z''), (''temperature_c'', PNone)]"
  let ?a = "append_reading [''k3x9_q2a''] ?s ?p ?r"
  have h1: "CHR ''/'' \<notin> set ?n" by simp
  have h2: "\<not> startswith ?n ''.tmp_json_''" by (simp add: startswith_def)
  have h3: "?p = path_join DATA_FOLDER ?n" by (simp add: path_join_def DATA_FOLDER_def)
  have h4: "?p \<notin> set (dirs ?s)" by simp
  have h5: "map_of (files ?s) ?p = Some Corrupt" by simp
  have h6: "DATA_FOLDER \<in> set (dirs ?s)" by (simp add: DATA_FOLDER_def)
  have f: "\<not> path_exists ?s (path_join DATA_FOLDER (''.tmp_json_'' @ ''k3x9_q2a''))"
    by (simp add: path_exists_def path_join_def DATA_FOLDER_def)
  then have h7: "\<exists>n\<in>set [''k3x9_q2a''].
      \<not> path_exists ?s (path_join DATA_FOLDER (''.tmp_json_'' @ n))"
    by simp
  from append_reading_corrupt [OF h1 h2 h3 h4 h5 h6 h7, of ?r] obtain states where
    a: "?a = ([FailedReadExisting], states, None)"
    and l: "map_of (files (last states)) ?p = Some (Json (PList [?r]))"
    by blast
  from a have "fst ?a = [FailedReadExisting]" "snd (snd ?a) = None" "fst (snd ?a) = states"
    by simp_all
  with l h1 h2 h3 h5 f show ?thesis by simp
qed

section \<open>Absent fields from the sensor to the query\<close>

lemma segment_name_plain:
  "CHR ''/'' \<notin> set (segment_name cs)" "\<not> startswith (segment_name cs) ''.tmp_json_''"
  "segment_name cs \<noteq> []"
  by (simp_all add: segment_name_def strftime_stamp_def startswith_def)

lemma child_name_data:
  assumes "CHR ''/'' \<notin> set n" "n \<noteq> []"
  shows "child_name ''data'' (''data/'' @ n) = [n]"
  using assms by (simp add: child_name_def)

lemma listdir_member:
  assumes "CHR ''/'' \<notin> set n" "n \<noteq> []"
    and "map_of (files s) (''data/'' @ n) = Some v"
    and "listdir s DATA_FOLDER = Inr all_files"
  shows "n \<in> set all_files"
proof -
  from assms(3) have "''data/'' @ n \<in> set (map fst (files s))"
    by (metis map_of_eq_None_iff option.distinct(1) set_map)
  then have "n \<in> set (concat (map (child_name ''data'') (map fst (files s) @ dirs s)))"
    using child_name_data [OF assms(1,2)] by (simp del: append.simps) force
  moreover from assms(4) have "all_files
      = concat (map (child_name ''data'') (map fst (files s) @ dirs s))"
    by (simp add: listdir_def DATA_FOLDER_def split: if_splits)
  ultimately show ?thesis by simp
qed

lemma load_data_InrD_scan:
  assumes "snd (load_data s a b) = Inr res" "DATA_FOLDER \<in> set (dirs s)"
  shows "\<exists>all_files before. listdir s DATA_FOLDER = Inr all_files \<and> dt_minus a 1 0 = Inr before"
proof -
  from assms(2) have "path_exists s DATA_FOLDER" by (simp add: path_exists_def)
  with assms(1) obtain p where "scan_folder s a b = Inr p"
    by (cases "scan_folder s a b") (auto simp: load_data_def)
  then show ?thesis
    by (auto simp: scan_folder_def split: sum.splits)
qed

lemma py_opt_cases:
  "(w = None \<longrightarrow> py_opt w = PNone \<and> py_opt w \<noteq> PFloat 0) \<and> (\<forall>x. w = Some x \<longrightarrow> py_opt w = PFloat x)"
  by (cases w) (simp_all add: py_opt_def)

text \<open>
  Claim C7. A field that is absent when the sensor is read, because the attribute is
  missing, is None or cannot be made a float, is None in the reading; the reading that
  \<^verbatim>\<open>append_reading\<close> leaves in the segment file is that dict, and a query whose window
  holds its timestamp and that returns gives back the same dict, the field still None:
  it is not the float zero, and a field that was read as \<open>x\<close>, zero included, comes back
  as the float \<open>x\<close>. The segment is the one of a cycle started at \<open>cs\<close>, and the file
  content is the JSON value itself, None standing for \<^verbatim>\<open>null\<close>.
\<close>

theorem absent_fields_round_trip:
  assumes "valid_datetime cs" "1000 \<le> year cs" "valid_datetime t"
    and "json_path_of cs \<notin> set (dirs s)"
    and "append_reading names s (json_path_of cs) (read_sensor_values t sens) = (lg, states, None)"
    and "snd (load_data (last states) start_dt end_dt) = Inr res"
    and "prev_day (date_of start_dt) \<le> date_of cs" "date_of cs \<le> date_of end_dt"
    and "dt_le start_dt (t\<lparr>microsecond := 0\<rparr>)" "dt_le (t\<lparr>microsecond := 0\<rparr>) end_dt"
  shows "\<exists>xs temp rh pwr.
           read_sensor_values t sens
             = PDict [(''ts'', PStr (isoformat (t\<lparr>microsecond := 0\<rparr>) @ ''Z'')),
                      (''temperature_c'', temp), (''humidity_rh'', rh),
                      (''battery_percentage'', pwr)]
         \<and> map_of (files (last states)) (json_path_of cs)
             = Some (Json (PList (xs @ [read_sensor_values t sens])))
         \<and> read_sensor_values t sens \<in> set res
         \<and> (try_float sens current_temperature = None \<longrightarrow> temp = PNone \<and> temp \<noteq> PFloat 0)
         \<and> (try_float sens current_r_h = None \<longrightarrow> rh = PNone \<and> rh \<noteq> PFloat 0)
         \<and> (try_float sens battery_percentage = None \<longrightarrow> pwr = PNone \<and> pwr \<noteq> PFloat 0)
         \<and> (\<forall>x. try_float sens current_temperature = Some x \<longrightarrow> temp = PFloat x)
         \<and> (\<forall>x. try_float sens current_r_h = Some x \<longrightarrow> rh = PFloat x)
         \<and> (\<forall>x. try_float sens battery_percentage = Some x \<longrightarrow> pwr = PFloat x)"
proof -
  let ?r = "read_sensor_values t sens"
  let ?n = "segment_name cs"
  let ?t = "t\<lparr>microsecond := 0\<rparr>"
  have p: "json_path_of cs = ''data/'' @ ?n"
    unfolding json_path_of_segment_name by (rule data_path(1)) (rule segment_name_plain(1))
  have pj: "path_join DATA_FOLDER ?n = ''data/'' @ ?n"
    by (rule data_path(1)) (rule segment_name_plain(1))
  from assms(5) obtain xs where
    a: "atomic_write_json names s (json_path_of cs) (PList (xs @ [?r])) = (states, None)"
    by (auto simp: append_reading_def case_prod_unfold Let_def split: pyval.splits)
  from atomic_write_json_segment(3) [OF segment_name_plain(1,2) p assms(4) a refl]
  obtain pre post where st: "states = pre @ post" "post \<noteq> []"
    and new: "\<forall>st\<in>set post. map_of (files st) (json_path_of cs) = Some (Json (PList (xs @ [?r])))"
    and d: "''data'' \<in> set (dirs (last states))"
    by blast
  from st new have f: "map_of (files (last states)) (json_path_of cs)
      = Some (Json (PList (xs @ [?r])))"
    by simp
  from d have d': "DATA_FOLDER \<in> set (dirs (last states))" by (simp add: DATA_FOLDER_def)
  from load_data_InrD_scan [OF assms(6) d'] obtain all_files before where
    l: "listdir (last states) DATA_FOLDER = Inr all_files"
    and b: "dt_minus start_dt 1 0 = Inr before"
    by blast
  have m: "?n \<in> set all_files"
    using f l unfolding p by (rule listdir_member [OF segment_name_plain(1,3)])
  have c: "?n \<in> set (candidates (last states) start_dt end_dt)"
    unfolding candidates_eq [OF l b] relevant_files_iff
    using m assms(7,8)
    by (simp add: file_date_segment_name [OF assms(1)] segment_name_affixes)
  have v: "valid_datetime ?t"
    using assms(3) by (simp add: valid_datetime_def date_of_def)
  have ts: "entry_ts ?r = Inr ?t"
    using strptime_ts_isoformat [OF v]
    by (simp add: entry_ts_def read_sensor_values_def Let_def)
  have f': "map_of (files (last states)) (path_join DATA_FOLDER ?n)
      = Some (Json (PList (xs @ [?r])))"
    using f unfolding p pj .
  have "?r \<in> set (xs @ [?r])" by simp
  from load_data_returns_entry [OF assms(6) c f' this ts assms(9,10)]
  have r: "?r \<in> set res" .
  have e: "?r = PDict [(''ts'', PStr (isoformat ?t @ ''Z'')),
                      (''temperature_c'', py_opt (try_float sens current_temperature)),
                      (''humidity_rh'', py_opt (try_float sens current_r_h)),
                      (''battery_percentage'', py_opt (try_float sens battery_percentage))]"
    by (simp add: read_sensor_values_def Let_def)
  show ?thesis
    apply (rule exI [of _ xs])
    apply (rule exI [of _ "py_opt (try_float sens current_temperature)"])
    apply (rule exI [of _ "py_opt (try_float sens current_r_h)"])
    apply (rule exI [of _ "py_opt (try_float sens battery_percentage)"])
    apply (intro conjI)
            apply (rule e)
           apply (rule f)
          apply (rule r)
         apply (rule py_opt_cases [THEN conjunct1])
        apply (rule py_opt_cases [THEN conjunct1])
       apply (rule py_opt_cases [THEN conjunct1])
      apply (rule py_opt_cases [THEN conjunct2])
     apply (rule py_opt_cases [THEN conjunct2])
    apply (rule py_opt_cases [THEN conjunct2])
    done
qed


theorem absent_fields_round_trip_witness:
  "valid_datetime
     \<lparr>year = 2025, month = 11, day = 20, hour = 9, minute = 0, second = 0, microsecond = 0\<rparr>
   \<and> valid_datetime
     \<lparr>year = 2025, month = 11, day = 20, hour = 10, minute = 0, second = 6, microsecond = 250000\<rparr>
   \<and> try_float \<lparr>attributes = Some \<lparr>custom_name = Some ''Schlafzimmersensor'',
                                 current_temperature = AttrInt 0, current_r_h = AttrNone,
                                 battery_percentage = AttrRaises\<rparr>\<rparr> current_temperature = Some 0
   \<and> try_float \<lparr>attributes = Some \<lparr>custom_name = Some ''Schlafzimmersensor'',
                                 current_temperature = AttrInt 0, current_r_h = AttrNone,
                                 battery_percentage = AttrRaises\<rparr>\<rparr> current_r_h = None
   \<and> try_float \<lparr>attributes = Some \<lparr>custom_name = Some ''Schlafzimmersensor'',
                                 current_temperature = AttrInt 0, current_r_h = AttrNone,
                                 battery_percentage = AttrRaises\<rparr>\<rparr> battery_percentage = None
   \<and> snd (snd (append_reading [''k3x9_q2a'']
        \<lparr>dirs = [''data''], files = []\<rparr>
        (json_path_of
           \<lparr>year = 2025, month = 11, day = 20, hour = 9, minute = 0, second = 0, microsecond = 0\<rparr>)
        (read_sensor_values
           \<lparr>year = 2025, month = 11, day = 20, hour = 10, minute = 0, second = 6, microsecond = 250000\<rparr>
           \<lparr>attributes = Some \<lparr>custom_name = Some ''Schlafzimmersensor'',
                                 current_temperature = AttrInt 0, current_r_h = AttrNone,
                                 battery_percentage = AttrRaises\<rparr>\<rparr>))) = None
   \<and> snd (load_data (last (fst (snd (append_reading [''k3x9_q2a'']
        \<lparr>dirs = [''data''], files = []\<rparr>
        (json_path_of
           \<lparr>year = 2025, month = 11, day = 20, hour = 9, minute = 0, second = 0, microsecond = 0\<rparr>)
        (read_sensor_values
           \<lparr>year = 2025, month = 11, day = 20, hour = 10, minute = 0, second = 6, microsecond = 250000\<rparr>
           \<lparr>attributes = Some \<lparr>custom_name = Some ''Schlafzimmersensor'',
                                 current_temperature = AttrInt 0, current_r_h = AttrNone,
                                 battery_percentage = AttrRaises\<rparr>\<rparr>)))))
        \<lparr>year = 2025, month = 11, day = 20, hour = 10, minute = 0, second = 0, microsecond = 0\<rparr>
        \<lparr>year = 2025, month = 11, day = 20, hour = 11, minute = 0, second = 0, microsecond = 0\<rparr>)
     = Inr [PDict [(''ts'', PStr ''2025-11-20T10:00:06Z''), (''temperature_c'', PFloat 0),
             (''humidity_rh'', PNone), (''battery_percentage'', PNone)]]
   \<and> read_sensor_values
        \<lparr>year = 2025, month = 11, day = 20, hour = 10, minute = 0, second = 6, microsecond = 250000\<rparr>
        \<lparr>attributes = Some \<lparr>custom_name = Some ''Schlafzimmersensor'',
                                 current_temperature = AttrInt 0, current_r_h = AttrNone,
                                 battery_percentage = AttrRaises\<rparr>\<rparr>
     \<in> set [PDict [(''ts'', PStr ''2025-11-20T10:00:06Z''), (''temperature_c'', PFloat 0),
             (''humidity_rh'', PNone), (''battery_percentage'', PNone)]]
   \<and> read_sensor_values
        \<lparr>year = 2025, month = 11, day = 20, hour = 10, minute = 0, second = 6, microsecond = 250000\<rparr>
        \<lparr>attributes = Some \<lparr>custom_name = Some ''Schlafzimmersensor'',
                                 current_temperature = AttrInt 0, current_r_h = AttrNone,
                                 battery_percentage = AttrRaises\<rparr>\<rparr>
     = PDict [(''ts'', PStr ''2025-11-20T10:00:06Z''), (''temperature_c'', PFloat 0),
             (''humidity_rh'', PNone), (''battery_percentage'', PNone)]"
proof -
  let ?cs = "\<lparr>year = 2025, month = 11, day = 20, hour = 9, minute = 0, second = 0, microsecond = 0\<rparr>"
  let ?t = "\<lparr>year = 2025, month = 11, day = 20, hour = 10, minute = 0, second = 6, microsecond = 250000\<rparr>"
  let ?sens = "\<lparr>attributes = Some \<lparr>custom_name = Some ''Schlafzimmersensor'',
                                 current_temperature = AttrInt 0, current_r_h = AttrNone,
                                 battery_percentage = AttrRaises\<rparr>\<rparr>"
  let ?s = "\<lparr>dirs = [''data''], files = []\<rparr>"
  let ?a = "\<lparr>year = 2025, month = 11, day = 20, hour = 10, minute = 0, second = 0, microsecond = 0\<rparr>"
  let ?b = "\<lparr>year = 2025, month = 11, day = 20, hour = 11, minute = 0, second = 0, microsecond = 0\<rparr>"
  let ?r = "PDict [(''ts'', PStr ''2025-11-20T10:00:06Z''), (''temperature_c'', PFloat 0),
             (''humidity_rh'', PNone), (''battery_percentage'', PNone)]"
  let ?app = "append_reading [''k3x9_q2a''] ?s (json_path_of ?cs) (read_sensor_values ?t ?sens)"
  have h1: "valid_datetime ?cs" "valid_datetime ?t"
    by (simp_all add: valid_datetime_def valid_date_def date_of_def days_in_month_def)
  have h2: "(1000::nat) \<le> year ?cs" by simp
  have h4: "json_path_of ?cs \<notin> set (dirs ?s)"
    by (simp add: json_path_of_def format_eval)
  have err: "snd (snd ?app) = None"
    by (simp add: collector_eval format_eval fs_eval Let_def)
  then have h5: "?app = (fst ?app, fst (snd ?app), None)"
    by (metis prod.collapse)
  have h6: "snd (load_data (last (fst (snd ?app))) ?a ?b) = Inr [?r]"
    by (simp add: collector_eval load_data_def parse_eval time_eval format_eval fs_eval Let_def)
  have h7: "prev_day (date_of ?a) \<le> date_of ?cs" "date_of ?cs \<le> date_of ?b"
    by (simp_all add: time_eval date_of_def)
  have h9: "dt_le ?a (?t\<lparr>microsecond := 0\<rparr>)" "dt_le (?t\<lparr>microsecond := 0\<rparr>) ?b"
    by (simp_all add: time_eval)
  have f: "try_float ?sens current_temperature = Some 0" "try_float ?sens current_r_h = None"
    "try_float ?sens battery_percentage = None"
    by (simp_all add: try_float_def)
  have i: "isoformat (?t\<lparr>microsecond := 0\<rparr>) @ ''Z'' = ''2025-11-20T10:00:06Z''"
    by (simp add: format_eval)
  from absent_fields_round_trip [OF h1(1) h2 h1(2) h4 h5 h6 h7 h9]
  have m: "read_sensor_values ?t ?sens \<in> set [?r]"
    by (elim exE conjE)
  have v: "read_sensor_values ?t ?sens = ?r"
    unfolding read_sensor_values_def Let_def i f by (simp add: py_opt_def)
  from h1 f err h6 m v show ?thesis by (intro conjI)
qed

end
